theory Spec2Isabelle
  imports Main "HOL-Library.Word"
begin

unbundle bit_operations_syntax

section \<open>Mutable resources (swarm/storage/resource.go)\<close>

subsection \<open>Bytes, errors and outcomes\<close>

type_synonym byte = "8 word"
type_synonym bytes = "byte list"

text \<open>
  Go strings are byte sequences; \<open>len(name)\<close> counts bytes and \<open>[]byte(name)\<close> is the
  identity on them, so resource names are byte lists here.
\<close>

type_synonym gostring = bytes

text \<open>The error codes of \<open>NewResourceError\<close> (the constants \<open>ErrInit\<close> ... \<open>ErrPeriodDepth\<close>).\<close>

datatype errcode =
    ErrInit | ErrNotFound | ErrIO | ErrUnauthorized | ErrInvalidValue | ErrDataOverflow
  | ErrNothingToReturn | ErrCorruptData | ErrInvalidSignature | ErrNotSynced | ErrPeriodDepth

text \<open>
  An error value is either a \<open>ResourceError\<close> carrying a code, or an error without a code
  (\<open>errors.New\<close>, or an error handed back by an oracle). Messages are dropped.
\<close>

datatype error = ResourceError errcode | PlainError

text \<open>
  A Go call either panics (slice bounds out of range, nil dereference, division by zero),
  returns a non-nil error, or returns its value.
\<close>

datatype 'a outcome = Panic | Err error | Ok 'a

fun obind :: "'a outcome \<Rightarrow> ('a \<Rightarrow> 'b outcome) \<Rightarrow> 'b outcome" where
  "obind Panic f = Panic"
| "obind (Err e) f = Err e"
| "obind (Ok x) f = f x"

subsection \<open>encoding/binary: little-endian integers\<close>

text \<open>\<open>binary.LittleEndian.PutUint16/32/64\<close>: byte \<open>i\<close> is \<open>byte(v >> (8*i))\<close>.\<close>

definition PutUint16 :: "16 word \<Rightarrow> bytes" where
  "PutUint16 v = [ucast v, ucast (drop_bit 8 v)]"

definition PutUint32 :: "32 word \<Rightarrow> bytes" where
  "PutUint32 v = [ucast v, ucast (drop_bit 8 v), ucast (drop_bit 16 v), ucast (drop_bit 24 v)]"

definition PutUint64 :: "64 word \<Rightarrow> bytes" where
  "PutUint64 v = [ucast v, ucast (drop_bit 8 v), ucast (drop_bit 16 v), ucast (drop_bit 24 v),
                  ucast (drop_bit 32 v), ucast (drop_bit 40 v), ucast (drop_bit 48 v),
                  ucast (drop_bit 56 v)]"

text \<open>
  \<open>binary.LittleEndian.Uint16/32/64\<close>: \<open>b[0] | b[1]<<8 | ...\<close>. The callers below only
  pass slices that hold enough bytes.
\<close>

definition Uint16 :: "bytes \<Rightarrow> 16 word" where
  "Uint16 b = ucast (b ! 0) OR push_bit 8 (ucast (b ! 1))"

definition Uint32 :: "bytes \<Rightarrow> 32 word" where
  "Uint32 b = ucast (b ! 0) OR push_bit 8 (ucast (b ! 1)) OR push_bit 16 (ucast (b ! 2))
              OR push_bit 24 (ucast (b ! 3))"

definition Uint64 :: "bytes \<Rightarrow> 64 word" where
  "Uint64 b = ucast (b ! 0) OR push_bit 8 (ucast (b ! 1)) OR push_bit 16 (ucast (b ! 2))
              OR push_bit 24 (ucast (b ! 3)) OR push_bit 32 (ucast (b ! 4))
              OR push_bit 40 (ucast (b ! 5)) OR push_bit 48 (ucast (b ! 6))
              OR push_bit 56 (ucast (b ! 7))"

subsection \<open>Go slices\<close>

text \<open>
  A Go byte slice is a window on a backing array: \<open>arr\<close> holds the array from the
  slice's first element up to its capacity, \<open>slen\<close> is \<open>len(s)\<close>. A slice expression
  \<open>s[lo:hi]\<close> panics unless \<open>0 \<le> lo \<le> hi \<le> cap(s)\<close> (the upper bound is the
  capacity, not the length); \<open>s[lo:]\<close> is \<open>s[lo:len(s)]\<close>.
\<close>

datatype slice = Slice (arr: bytes) (slen: nat)

definition scap :: "slice \<Rightarrow> nat" where
  "scap s = length (arr s)"

definition elems :: "slice \<Rightarrow> bytes" where
  "elems s = take (slen s) (arr s)"

text \<open>\<open>make([]byte, n)\<close> filled with \<open>b\<close>: length and capacity coincide.\<close>

definition mkslice :: "bytes \<Rightarrow> slice" where
  "mkslice b = Slice b (length b)"

definition reslice :: "slice \<Rightarrow> int \<Rightarrow> int \<Rightarrow> slice outcome" where
  "reslice s lo hi =
     (if 0 \<le> lo \<and> lo \<le> hi \<and> hi \<le> int (scap s)
      then Ok (Slice (drop (nat lo) (arr s)) (nat (hi - lo)))
      else Panic)"

definition slice_from :: "slice \<Rightarrow> int \<Rightarrow> slice outcome" where
  "slice_from s lo = reslice s lo (int (slen s))"

text \<open>
  \<open>copy(dst[pos:], src)\<close> on a buffer \<open>dst\<close> with \<open>pos \<le> len(dst)\<close>: copies
  \<open>min(len(src), len(dst) - pos)\<close> bytes.
\<close>

definition copy_at :: "bytes \<Rightarrow> nat \<Rightarrow> bytes \<Rightarrow> bytes" where
  "copy_at dst pos src =
     (let n = min (length src) (length dst - pos)
      in take pos dst @ take n src @ drop (pos + n) dst)"

subsection \<open>encoding/binary: unsigned varints\<close>

text \<open>
  \<open>binary.Uvarint(buf)\<close> returns the value and the number of bytes read; the count is
  \<open>0\<close> when the buffer ends inside the number and \<open>-(i+1)\<close> on a 64-bit overflow.
  The loop variables are the index \<open>i\<close> (the shift is \<open>7*i\<close>) and the accumulator.
\<close>

fun Uvarint_loop :: "nat \<Rightarrow> 64 word \<Rightarrow> bytes \<Rightarrow> 64 word \<times> int" where
  "Uvarint_loop i x [] = (0, 0)"
| "Uvarint_loop i x (b # bs) =
     (if b < 0x80 then
        (if i > 9 \<or> (i = 9 \<and> b > 1) then (0, - (int i + 1))
         else (x OR push_bit (7 * i) (ucast b), int i + 1))
      else Uvarint_loop (i + 1) (x OR push_bit (7 * i) (ucast (b AND 0x7f))) bs)"

definition Uvarint :: "bytes \<Rightarrow> 64 word \<times> int" where
  "Uvarint buf = Uvarint_loop 0 0 buf"

text \<open>
  \<open>binary.ReadUvarint\<close> on a \<open>bytes.Buffer\<close>: the value and the unread rest, or an
  error (end of buffer inside the number, or overflow), here \<open>None\<close>.
\<close>

fun ReadUvarint_loop :: "nat \<Rightarrow> 64 word \<Rightarrow> bytes \<Rightarrow> (64 word \<times> bytes) option" where
  "ReadUvarint_loop i x [] = None"
| "ReadUvarint_loop i x (b # bs) =
     (if b < 0x80 then
        (if i > 9 \<or> (i = 9 \<and> b > 1) then None
         else Some (x OR push_bit (7 * i) (ucast b), bs))
      else ReadUvarint_loop (i + 1) (x OR push_bit (7 * i) (ucast (b AND 0x7f))) bs)"

definition ReadUvarint :: "bytes \<Rightarrow> (64 word \<times> bytes) option" where
  "ReadUvarint buf = ReadUvarint_loop 0 0 buf"

subsection \<open>Constants\<close>

definition signatureLength :: int where
  "signatureLength = 65"

definition metadataChunkOffsetSize :: nat where
  "metadataChunkOffsetSize = 18"

definition chunkSize :: int where
  "chunkSize = 4096"

subsection \<open>Chunks and the wire codec\<close>

text \<open>A chunk: its key and its data (\<open>SData\<close>, always allocated with \<open>make\<close>).\<close>

record Chunk =
  Key :: bytes
  SData :: bytes

text \<open>
  A hasher from the pool accumulates what is written to it; \<open>Sum(nil)\<close> applies the
  configured hash function \<open>H\<close> (\<open>MakeHashFunc(resourceHash)\<close>) to the accumulated bytes.
\<close>

definition hasher_Reset :: "bytes" where
  "hasher_Reset = []"

definition hasher_Write :: "bytes \<Rightarrow> bytes \<Rightarrow> bytes" where
  "hasher_Write st b = st @ b"

definition hasher_Sum :: "(bytes \<Rightarrow> bytes) \<Rightarrow> bytes \<Rightarrow> bytes" where
  "hasher_Sum H st = H st"

text \<open>\<open>resourceHash(period, version, namehash)\<close>: the key of an update chunk.\<close>

definition resourceHash :: "(bytes \<Rightarrow> bytes) \<Rightarrow> 32 word \<Rightarrow> 32 word \<Rightarrow> bytes \<Rightarrow> bytes" where
  "resourceHash H period version namehash =
     (let hasher = hasher_Reset;
          hasher = hasher_Write hasher (PutUint32 period);
          hasher = hasher_Write hasher (PutUint32 version);
          hasher = hasher_Write hasher namehash
      in hasher_Sum H hasher)"

text \<open>
  \<open>common.BytesToHash\<close>: a 32-byte array filled from the right, longer input cropped
  from the left.
\<close>

definition BytesToHash :: "bytes \<Rightarrow> bytes" where
  "BytesToHash b =
     (if length b > 32 then drop (length b - 32) b else replicate (32 - length b) 0 @ b)"

text \<open>\<open>keyDataHash(key, data)\<close>: the digest that is signed.\<close>

definition keyDataHash :: "(bytes \<Rightarrow> bytes) \<Rightarrow> bytes \<Rightarrow> bytes \<Rightarrow> bytes" where
  "keyDataHash H key data =
     (let hasher = hasher_Reset;
          hasher = hasher_Write hasher key;
          hasher = hasher_Write hasher data
      in BytesToHash (hasher_Sum H hasher))"

text \<open>
  \<open>newMetaChunk\<close>: a zeroed buffer of \<open>18 + len(name)\<close> bytes, the start block at 2,
  the frequency at 10 (the windows \<open>data[2:10]\<close> and \<open>data[10:18]\<close> are as long as the
  8 bytes copied into them), the name at 18; the key is the hash of the data.
\<close>

definition newMetaChunk :: "(bytes \<Rightarrow> bytes) \<Rightarrow> gostring \<Rightarrow> 64 word \<Rightarrow> 64 word \<Rightarrow> Chunk" where
  "newMetaChunk H name startBlock frequency =
     (let data = replicate (metadataChunkOffsetSize + length name) 0;
          data = copy_at data 2 (PutUint64 startBlock);
          data = copy_at data 10 (PutUint64 frequency);
          data = copy_at data 18 name;
          key = hasher_Sum H (hasher_Write hasher_Reset data)
      in \<lparr>Key = key, SData = copy_at (replicate (metadataChunkOffsetSize + length name) 0) 0 data\<rparr>)"

text \<open>
  \<open>newUpdateChunk\<close>. The signature is a \<open>[65]byte\<close> array when present. The length
  fields are converted with \<open>uint16(...)\<close>, which keeps the low 16 bits.
\<close>

definition newUpdateChunk ::
  "bytes \<Rightarrow> bytes option \<Rightarrow> 32 word \<Rightarrow> 32 word \<Rightarrow> gostring \<Rightarrow> bytes \<Rightarrow> int \<Rightarrow> Chunk" where
  "newUpdateChunk key signature period version name data datalength =
     (let signaturelength = (if signature \<noteq> None then signatureLength else 0);
          headerlength = int (length name) + 4 + 4;
          actualdatalength = int (length data);
          sdata = replicate (nat (4 + signaturelength + headerlength + actualdatalength)) 0;
          cursor = 0;
          sdata = copy_at sdata cursor (PutUint16 (word_of_int headerlength));
          cursor = cursor + 2;
          sdata = copy_at sdata cursor (PutUint16 (word_of_int datalength));
          cursor = cursor + 2;
          sdata = copy_at sdata cursor (PutUint32 period);
          cursor = cursor + 4;
          sdata = copy_at sdata cursor (PutUint32 version);
          cursor = cursor + 4;
          sdata = copy_at sdata cursor name;
          cursor = cursor + length name;
          sdata = copy_at sdata cursor data;
          sdata = (case signature of None \<Rightarrow> sdata
                   | Some sig \<Rightarrow> copy_at sdata (cursor + length data) sig)
      in \<lparr>Key = key, SData = sdata\<rparr>)"

text \<open>
  \<open>isMultihash\<close>: the length of the multihash at the start of \<open>data\<close>, or 0.
  \<open>int(hashlength)\<close> reinterprets the 64 bits as a signed integer.
\<close>

definition isMultihash :: "bytes \<Rightarrow> int" where
  "isMultihash data =
     (let cursor = 0;
          (t, c) = Uvarint data in
      if c \<le> 0 then 0
      else
        let cursor = cursor + c;
            (hashlength, c) = Uvarint (drop (nat cursor) data) in
        if c \<le> 0 then 0
        else
          let cursor = cursor + c;
              inthashlength = sint hashlength in
          if int (length (drop (nat cursor) data)) < inthashlength then 0
          else cursor + inthashlength)"

text \<open>
  The multihash probe at the head of \<open>parseUpdate\<close>: when the data length field is 0, two
  varints are read from \<open>chunkdata[headerlength+4:]\<close> (the index is computed in
  \<open>uint16\<close>). The length it computes is overwritten by the unconditional assignment that
  follows, so only its panic and its errors remain.
\<close>

definition multihash_probe :: "slice \<Rightarrow> 16 word \<Rightarrow> 16 word \<Rightarrow> unit outcome" where
  "multihash_probe chunkdata headerlength datalength =
     (if datalength = 0 then
        obind (slice_from chunkdata (uint (headerlength + 4))) (\<lambda>uvarintbuf.
          case ReadUvarint (elems uvarintbuf) of
            None \<Rightarrow> Err (ResourceError ErrCorruptData)
          | Some (r, rest) \<Rightarrow>
              (case ReadUvarint rest of
                 None \<Rightarrow> Err (ResourceError ErrCorruptData)
               | Some (r, rest) \<Rightarrow> Ok ()))
      else Ok ())"

text \<open>\<open>data = make([]byte, n); copy(data, chunkdata[cursor:cursor+n])\<close>.\<close>

definition make_copy :: "slice \<Rightarrow> int \<Rightarrow> int \<Rightarrow> bytes outcome" where
  "make_copy chunkdata cursor n =
     (if n < 0 then Panic
      else obind (reslice chunkdata cursor (cursor + n)) (\<lambda>src. Ok (elems src)))"

text \<open>
  \<open>parseUpdate\<close>. The first argument says whether the handler has a signer
  (\<open>self.signer != nil\<close>). The result is (signature, period, version, name, data,
  multihash).
\<close>

type_synonym parsed = "bytes option \<times> 32 word \<times> 32 word \<times> gostring \<times> bytes \<times> bool"

definition parseUpdate :: "bool \<Rightarrow> slice \<Rightarrow> parsed outcome" where
  "parseUpdate has_signer chunkdata =
     (if slen chunkdata < 14 then Err (ResourceError ErrNothingToReturn)
      else
        let cursor = 0;
            headerlength = Uint16 (drop (nat cursor) (elems chunkdata));
            cursor = cursor + 2;
            datalength = Uint16 (drop (nat cursor) (elems chunkdata));
            cursor = cursor + 2 in
        obind (multihash_probe chunkdata headerlength datalength) (\<lambda>_.
        let exclsignlength = uint (headerlength + datalength + 4) in
        if exclsignlength > int (slen chunkdata) \<or> exclsignlength < 14
        then Err (ResourceError ErrNothingToReturn)
        else
          let period = Uint32 (drop (nat cursor) (elems chunkdata));
              cursor = cursor + 4;
              version = Uint32 (drop (nat cursor) (elems chunkdata));
              cursor = cursor + 4;
              namelength = uint headerlength - cursor + 4 in
          obind (reslice chunkdata cursor (cursor + namelength)) (\<lambda>nameslice.
          let name = elems nameslice;
              cursor = cursor + namelength in
          obind (if datalength = 0 then
                   obind (slice_from chunkdata cursor) (\<lambda>tail.
                     let intdatalength = isMultihash (elems tail);
                         multihashboundary = cursor + intdatalength in
                     if int (slen chunkdata) \<noteq> multihashboundary
                        \<and> int (slen chunkdata) < multihashboundary + signatureLength
                     then Err PlainError
                     else Ok (intdatalength, True))
                 else Ok (uint datalength, False)) (\<lambda>(intdatalength, multihash).
          obind (make_copy chunkdata cursor intdatalength) (\<lambda>data.
          let cursor = cursor + intdatalength in
          obind (if has_signer then
                   obind (reslice chunkdata cursor (cursor + signatureLength)) (\<lambda>sigdata.
                     Ok (if slen sigdata > 0 then Some (elems sigdata) else None))
                 else Ok None) (\<lambda>signature.
          Ok (signature, period, version, name, data, multihash)))))))"

subsection \<open>Period arithmetic\<close>

text \<open>
  \<open>getNextPeriod\<close>: \<open>uint64\<close> subtraction and division, then the conversion
  \<open>uint32(period + 1)\<close>, which keeps the low 32 bits. Go panics on an integer division
  by zero.
\<close>

definition getNextPeriod :: "64 word \<Rightarrow> 64 word \<Rightarrow> 64 word \<Rightarrow> 32 word outcome" where
  "getNextPeriod start current frequency =
     (if current < start then Err (ResourceError ErrInvalidValue)
      else let blockdiff = current - start in
        if frequency = 0 then Panic
        else let period = blockdiff div frequency in
          Ok (ucast (period + 1)))"

text \<open>The formula of the specification, on unbounded naturals: \<open>\<lfloor>(cur - start) / freq\<rfloor> + 1\<close>.\<close>

definition nextPeriod_spec :: "nat \<Rightarrow> nat \<Rightarrow> nat \<Rightarrow> nat" where
  "nextPeriod_spec start cur freq = (cur - start) div freq + 1"

subsection \<open>The resource index and the handler\<close>

text \<open>
  The \<open>resource\<close> struct; the fields carry the prefix \<open>r_\<close>. \<open>r_updated\<close> says that
  the \<open>updated\<close> time stamp is not the zero time, which is all \<open>isSynced\<close> reads.
\<close>

record resource =
  r_Multihash :: bool
  r_name :: gostring
  r_nameHash :: bytes
  r_startBlock :: "64 word"
  r_lastPeriod :: "32 word"
  r_lastKey :: bytes
  r_frequency :: "64 word"
  r_version :: "32 word"
  r_data :: bytes
  r_updated :: bool

text \<open>\<open>&resource{}\<close>: every field at its zero value.\<close>

definition resource_zero :: resource where
  "resource_zero = \<lparr>r_Multihash = False, r_name = [], r_nameHash = replicate 32 0,
     r_startBlock = 0, r_lastPeriod = 0, r_lastKey = [], r_frequency = 0, r_version = 0,
     r_data = [], r_updated = False\<rparr>"

definition isSynced :: "resource \<Rightarrow> bool" where
  "isSynced self = r_updated self"

text \<open>\<open>UnmarshalBinary\<close>: the slice expressions \<open>data[:8]\<close>, \<open>data[8:16]\<close>, \<open>data[16:]\<close>.\<close>

definition UnmarshalBinary :: "resource \<Rightarrow> slice \<Rightarrow> resource outcome" where
  "UnmarshalBinary self d =
     obind (reslice d 0 8) (\<lambda>a.
     obind (reslice d 8 16) (\<lambda>b.
     obind (slice_from d 16) (\<lambda>c.
       Ok (self\<lparr>r_startBlock := Uint64 (elems a), r_frequency := Uint64 (elems b),
                r_name := elems c\<rparr>))))"

record ResourceLookupParams =
  Limit :: bool
  Max :: "32 word"

text \<open>
  Modelled from the spec: the chunk store (\<open>NetStore\<close>, not part of these sources), as
  the specification's interface has it: \<open>Put(chunk)\<close> publishes a chunk, \<open>Get(key)\<close>
  returns a chunk or fails. The store is the list of published chunks, newest first.
  Whether and when the store acknowledges a \<open>Put\<close> is the environment's choice.
\<close>

type_synonym NetStore = "Chunk list"

definition store_Put :: "NetStore \<Rightarrow> Chunk \<Rightarrow> NetStore" where
  "store_Put store chunk = chunk # store"

definition store_get :: "NetStore \<Rightarrow> bytes \<Rightarrow> Chunk option" where
  "store_get store key = find (\<lambda>c. Key c = key) store"

datatype store_ack = Stored | StoreErrored | StoreTimeout

text \<open>
  What the code takes from other packages: the hash function of the hasher pool, the ENS
  name hash \<open>ens.EnsNode\<close>, public-key recovery and address derivation from \<open>crypto\<close>,
  \<open>idna.ToASCII\<close>, and the store's acknowledgement of a published chunk.
\<close>

record env =
  hashFunc :: "bytes \<Rightarrow> bytes"
  EnsNode :: "gostring \<Rightarrow> bytes"
  SigToPub :: "bytes \<Rightarrow> bytes \<Rightarrow> error + bytes"
  PubkeyToAddress :: "bytes \<Rightarrow> bytes"
  ToASCII :: "gostring \<Rightarrow> error + gostring"
  storeAck :: "Chunk \<Rightarrow> store_ack"

text \<open>
  The handler. A nil pointer or nil interface is \<open>None\<close>. The index \<open>resources\<close> is
  keyed by \<open>nameHash.Hex()\<close>, which is one-to-one on hashes, so the hash itself is the key
  here. \<open>Sign\<close> returns a signature or an error, \<open>HeaderByNumber\<close> the block number
  or an error, \<open>ValidateOwner\<close> a boolean together with an error.
\<close>

record ResourceHandler =
  chunkStore :: "NetStore option"
  signer :: "(bytes \<Rightarrow> error + bytes) option"
  headerGetter :: "(gostring \<Rightarrow> error + 64 word) option"
  ownerValidator :: "(gostring \<Rightarrow> bytes \<Rightarrow> bool \<times> error option) option"
  resources :: "bytes \<rightharpoonup> resource"
  queryMaxPeriods :: ResourceLookupParams

definition SetStore :: "ResourceHandler \<Rightarrow> NetStore \<Rightarrow> ResourceHandler" where
  "SetStore self store = self\<lparr>chunkStore := Some store\<rparr>"

definition getResource :: "ResourceHandler \<Rightarrow> bytes \<Rightarrow> resource option" where
  "getResource self nameHash = resources self nameHash"

definition setResource :: "ResourceHandler \<Rightarrow> bytes \<Rightarrow> resource \<Rightarrow> ResourceHandler" where
  "setResource self nameHash rsrc = self\<lparr>resources := (resources self)(nameHash \<mapsto> rsrc)\<rparr>"

text \<open>\<open>hasUpdate\<close> reads a field of the map entry; on a missing entry that is a nil dereference.\<close>

definition hasUpdate :: "ResourceHandler \<Rightarrow> bytes \<Rightarrow> 32 word \<Rightarrow> bool outcome" where
  "hasUpdate self nameHash period =
     (case resources self nameHash of
        None \<Rightarrow> Panic
      | Some r \<Rightarrow> Ok (r_lastPeriod r = period))"

definition checkAccess :: "ResourceHandler \<Rightarrow> gostring \<Rightarrow> bytes \<Rightarrow> bool \<times> error option" where
  "checkAccess self name address =
     (case ownerValidator self of
        None \<Rightarrow> (True, None)
      | Some ValidateOwner \<Rightarrow> ValidateOwner name address)"

definition getBlock :: "ResourceHandler \<Rightarrow> gostring \<Rightarrow> 64 word outcome" where
  "getBlock self name =
     (case headerGetter self of
        None \<Rightarrow> Panic
      | Some HeaderByNumber \<Rightarrow>
          (case HeaderByNumber name of Inl err \<Rightarrow> Err err | Inr number \<Rightarrow> Ok number))"

definition getAddressFromDataSig :: "env \<Rightarrow> bytes \<Rightarrow> bytes \<Rightarrow> error + bytes" where
  "getAddressFromDataSig e datahash signature =
     (case SigToPub e datahash signature of
        Inl err \<Rightarrow> Inl err
      | Inr pub \<Rightarrow> Inr (PubkeyToAddress e pub))"

definition isSafeName :: "env \<Rightarrow> gostring \<Rightarrow> bool" where
  "isSafeName e name =
     (if name = [] then False
      else case ToASCII e name of
             Inl err \<Rightarrow> False
           | Inr validname \<Rightarrow> validname = name)"

subsection \<open>Validate\<close>

text \<open>
  \<open>Validate(key, data)\<close>. A panic inside \<open>parseUpdate\<close> is a panic of \<open>Validate\<close>.
  The error of \<open>checkAccess\<close> is discarded (\<open>ok, _ := ...\<close>).
\<close>

definition Validate :: "env \<Rightarrow> ResourceHandler \<Rightarrow> bytes \<Rightarrow> slice \<Rightarrow> bool outcome" where
  "Validate e self key data =
     (case parseUpdate (signer self \<noteq> None) data of
        Panic \<Rightarrow> Panic
      | Err err \<Rightarrow>
          (if slen data > metadataChunkOffsetSize
           then (if take 2 (elems data) = [0, 0] then Ok True else Ok False)
           else Ok False)
      | Ok (signature, period, version, name, parseddata, multihash) \<Rightarrow>
          (case signature of
             None \<Rightarrow> Ok (resourceHash (hashFunc e) period version (EnsNode e name) = key)
           | Some sig \<Rightarrow>
               let digest = keyDataHash (hashFunc e) key parseddata in
               (case getAddressFromDataSig e digest sig of
                  Inl err \<Rightarrow> Ok False
                | Inr addr \<Rightarrow> Ok (fst (checkAccess self name addr)))))"

subsection \<open>NewResource\<close>

text \<open>
  \<open>NewResource\<close> returns the key and the index entry, and the handler with the chunk
  published and the entry installed. \<open>self.chunkStore.Put(chunk)\<close> on a nil
  \<open>*NetStore\<close> reads the store through the nil pointer: a panic. There is no check of
  \<open>self.chunkStore\<close> before it.
\<close>

definition NewResource ::
  "env \<Rightarrow> ResourceHandler \<Rightarrow> gostring \<Rightarrow> 64 word \<Rightarrow> (bytes \<times> resource \<times> ResourceHandler) outcome" where
  "NewResource e self name frequency =
     (if frequency = 0 then Err (ResourceError ErrInvalidValue)
      else if \<not> isSafeName e name then Err (ResourceError ErrInvalidValue)
      else
        let nameHash = EnsNode e name in
        obind (case signer self of
                 None \<Rightarrow> Ok ()
               | Some Sign \<Rightarrow>
                   (case Sign nameHash of
                      Inl err \<Rightarrow> Err (ResourceError ErrInvalidSignature)
                    | Inr signature \<Rightarrow>
                        (case getAddressFromDataSig e nameHash signature of
                           Inl err \<Rightarrow> Err (ResourceError ErrInvalidSignature)
                         | Inr addr \<Rightarrow>
                             (case checkAccess self name addr of
                                (ok, Some err) \<Rightarrow> Err err
                              | (ok, None) \<Rightarrow>
                                  if \<not> ok then Err (ResourceError ErrUnauthorized)
                                  else Ok ())))) (\<lambda>_.
        obind (getBlock self name) (\<lambda>currentblock.
        let chunk = newMetaChunk (hashFunc e) name currentblock frequency in
        case chunkStore self of
          None \<Rightarrow> Panic
        | Some store \<Rightarrow>
            let self = self\<lparr>chunkStore := Some (store_Put store chunk)\<rparr>;
                rsrc = resource_zero\<lparr>r_startBlock := currentblock, r_frequency := frequency,
                         r_name := name, r_nameHash := nameHash, r_updated := True\<rparr>;
                self = setResource self nameHash rsrc
            in Ok (Key chunk, rsrc, self))))"

subsection \<open>update\<close>

text \<open>
  The steps of \<open>update\<close> between the store check and \<open>Put\<close>: they read the handler and
  build the chunk. The result is the chunk with the entry, the period and the version.
  \<open>version++\<close> is \<open>uint32\<close> addition.
\<close>

definition update_chunk ::
  "env \<Rightarrow> ResourceHandler \<Rightarrow> gostring \<Rightarrow> bytes \<Rightarrow> bool
   \<Rightarrow> (Chunk \<times> resource \<times> 32 word \<times> 32 word) outcome" where
  "update_chunk e self name data multihash =
     (let signaturelength = (if signer self \<noteq> None then signatureLength else 0);
          nameHash = EnsNode e name in
      case getResource self nameHash of
        None \<Rightarrow> Err (ResourceError ErrNotFound)
      | Some rsrc \<Rightarrow>
          if \<not> isSynced rsrc then Err (ResourceError ErrNotSynced)
          else
            let datalimit = chunkSize - (signaturelength - int (length name) - 12) in
            if int (length data) > datalimit then Err (ResourceError ErrDataOverflow)
            else
              obind (case getBlock self name of
                       Panic \<Rightarrow> Panic
                     | Err err \<Rightarrow> Err (ResourceError ErrIO)
                     | Ok b \<Rightarrow> Ok b) (\<lambda>currentblock.
              obind (getNextPeriod (r_startBlock rsrc) currentblock (r_frequency rsrc)) (\<lambda>nextperiod.
              obind (hasUpdate self nameHash nextperiod) (\<lambda>has.
              let version = (if has then r_version rsrc else 0) + 1;
                  key = resourceHash (hashFunc e) nextperiod version (r_nameHash rsrc) in
              obind (case signer self of
                       None \<Rightarrow> Ok None
                     | Some Sign \<Rightarrow>
                         let digest = keyDataHash (hashFunc e) key data in
                         (case Sign digest of
                            Inl err \<Rightarrow> Err (ResourceError ErrInvalidSignature)
                          | Inr sig \<Rightarrow>
                              (case getAddressFromDataSig e digest sig of
                                 Inl err \<Rightarrow> Err (ResourceError ErrInvalidSignature)
                               | Inr addr \<Rightarrow>
                                   (case checkAccess self name addr of
                                      (ok, Some err) \<Rightarrow> Err (ResourceError ErrIO)
                                    | (ok, None) \<Rightarrow>
                                        if \<not> ok then Err (ResourceError ErrUnauthorized)
                                        else Ok (Some sig))))) (\<lambda>signature.
              let datalength = (if \<not> multihash then int (length data) else 0);
                  chunk = newUpdateChunk key signature nextperiod version name data datalength
              in Ok (chunk, rsrc, nextperiod, version))))))"

text \<open>
  \<open>update\<close>: the result and the handler afterwards. The chunk is handed to \<open>Put\<close> before
  the wait for the acknowledgement, so it is published also when the call then reports
  \<open>ErrIO\<close>.
\<close>

definition update ::
  "env \<Rightarrow> ResourceHandler \<Rightarrow> gostring \<Rightarrow> bytes \<Rightarrow> bool \<Rightarrow> bytes outcome \<times> ResourceHandler" where
  "update e self name data multihash =
     (if length data = 0 then (Err (ResourceError ErrInvalidValue), self)
      else case chunkStore self of
        None \<Rightarrow> (Err (ResourceError ErrInit), self)
      | Some store \<Rightarrow>
          (case update_chunk e self name data multihash of
             Panic \<Rightarrow> (Panic, self)
           | Err err \<Rightarrow> (Err err, self)
           | Ok (chunk, rsrc, nextperiod, version) \<Rightarrow>
               let self = self\<lparr>chunkStore := Some (store_Put store chunk)\<rparr> in
               (case storeAck e chunk of
                  StoreErrored \<Rightarrow> (Err (ResourceError ErrIO), self)
                | StoreTimeout \<Rightarrow> (Err (ResourceError ErrIO), self)
                | Stored \<Rightarrow>
                    let rsrc = rsrc\<lparr>r_lastPeriod := nextperiod, r_version := version,
                                   r_data := data\<rparr>
                    in (Ok (Key chunk), setResource self (EnsNode e name) rsrc))))"

definition UpdateMultihash ::
  "env \<Rightarrow> ResourceHandler \<Rightarrow> gostring \<Rightarrow> bytes \<Rightarrow> bytes outcome \<times> ResourceHandler" where
  "UpdateMultihash e self name data =
     (if isMultihash data = 0 then (Err (ResourceError ErrNothingToReturn), self)
      else update e self name data True)"

definition Update ::
  "env \<Rightarrow> ResourceHandler \<Rightarrow> gostring \<Rightarrow> bytes \<Rightarrow> bytes outcome \<times> ResourceHandler" where
  "Update e self name data = update e self name data False"

subsection \<open>lookup\<close>

text \<open>
  \<open>updateResourceIndex\<close>. The error of \<open>parseUpdate\<close> is not looked at: after a failed
  parse the values are the zero values. The entry is the one of the index (a pointer in
  the code), so the update is written back under its name hash.
\<close>

definition updateResourceIndex ::
  "env \<Rightarrow> ResourceHandler \<Rightarrow> resource \<Rightarrow> Chunk \<Rightarrow> (resource \<times> ResourceHandler) outcome" where
  "updateResourceIndex e self rsrc chunk =
     obind (case parseUpdate (signer self \<noteq> None) (mkslice (SData chunk)) of
              Panic \<Rightarrow> Panic
            | Err err \<Rightarrow> Ok (None, 0, 0, [], [], False)
            | Ok r \<Rightarrow> Ok r) (\<lambda>(signature, period, version, name, data, multihash).
     if r_name rsrc \<noteq> name then Err (ResourceError ErrNothingToReturn)
     else
       obind (case signature of
                None \<Rightarrow> Ok ()
              | Some sig \<Rightarrow>
                  let digest = keyDataHash (hashFunc e) (Key chunk) data in
                  (case getAddressFromDataSig e digest sig of
                     Inl err \<Rightarrow> Err (ResourceError ErrUnauthorized)
                   | Inr addr \<Rightarrow> Ok ())) (\<lambda>_.
       let rsrc = rsrc\<lparr>r_lastKey := Key chunk, r_lastPeriod := period, r_version := version,
                      r_updated := True, r_data := data, r_Multihash := multihash\<rparr>
       in Ok (rsrc, setResource self (r_nameHash rsrc) rsrc)))"

text \<open>
  The inner loop of \<open>lookup\<close>: as long as the next version is in the store, move to it.
  The version is a \<open>uint32\<close> and wraps around; the loop has no other exit, so it need not
  end: \<open>None\<close> is a run that never returns.
\<close>

partial_function (option) version_scan ::
  "(bytes \<Rightarrow> bytes) \<Rightarrow> NetStore \<Rightarrow> 32 word \<Rightarrow> bytes \<Rightarrow> 32 word \<Rightarrow> Chunk \<Rightarrow> Chunk option" where
  "version_scan Hf store period nameHash version chunk =
     (case store_get store (resourceHash Hf period (version + 1) nameHash) of
        None \<Rightarrow> Some chunk
      | Some newchunk \<Rightarrow> version_scan Hf store period nameHash (version + 1) newchunk)"

text \<open>The outer loop \<open>for period > 0\<close>, with the hop count.\<close>

function period_scan ::
  "env \<Rightarrow> ResourceHandler \<Rightarrow> NetStore \<Rightarrow> resource \<Rightarrow> bool \<Rightarrow> 32 word \<Rightarrow> ResourceLookupParams
   \<Rightarrow> 32 word \<Rightarrow> 32 word \<Rightarrow> (resource \<times> ResourceHandler) outcome option" where
  "period_scan e self store rsrc specificversion version maxLookup period hops =
     (if period > 0 then
        (if Limit maxLookup \<and> hops > Max maxLookup then Some (Err (ResourceError ErrPeriodDepth))
         else
           case store_get store (resourceHash (hashFunc e) period version (r_nameHash rsrc)) of
             Some chunk \<Rightarrow>
               if specificversion then Some (updateResourceIndex e self rsrc chunk)
               else
                 (case version_scan (hashFunc e) store period (r_nameHash rsrc) version chunk of
                    None \<Rightarrow> None
                  | Some chunk \<Rightarrow> Some (updateResourceIndex e self rsrc chunk))
           | None \<Rightarrow>
               period_scan e self store rsrc specificversion version maxLookup (period - 1) (hops + 1))
      else Some (Err (ResourceError ErrNotFound)))"
  by pat_completeness auto
termination
proof (relation "measure (\<lambda>(e, self, store, rsrc, specificversion, version, maxLookup, period, hops). unat period)")
  show "wf (measure (\<lambda>(e, self, store, rsrc, specificversion, version, maxLookup, period, hops). unat period))"
    by simp
next
  fix e :: env and self :: ResourceHandler and store :: NetStore and rsrc :: resource
    and specificversion :: bool and version :: "32 word" and maxLookup :: ResourceLookupParams
    and period hops :: "32 word"
  assume pos: "0 < period"
  then have "period \<noteq> 0" by (simp add: word_neq_0_conv)
  then have "unat (period - 1) = unat period - 1" by (rule unat_minus_one)
  moreover have "0 < unat period" using pos by (simp add: word_less_nat_alt)
  ultimately have "unat (period - 1) < unat period" by linarith
  then show "((e, self, store, rsrc, specificversion, version, maxLookup, period - 1, hops + 1),
              (e, self, store, rsrc, specificversion, version, maxLookup, period, hops))
             \<in> measure (\<lambda>(e, self, store, rsrc, specificversion, version, maxLookup, period, hops). unat period)"
    by simp
qed

text \<open>
  \<open>lookup\<close>; \<open>maxLookup\<close> is \<open>None\<close> for a nil pointer. \<open>None\<close> as the result is a
  run that never returns.
\<close>

definition lookup ::
  "env \<Rightarrow> ResourceHandler \<Rightarrow> resource \<Rightarrow> 32 word \<Rightarrow> 32 word \<Rightarrow> bool
   \<Rightarrow> ResourceLookupParams option \<Rightarrow> (resource \<times> ResourceHandler) outcome option" where
  "lookup e self rsrc period version refresh maxLookup =
     (case chunkStore self of
        None \<Rightarrow> Some (Err (ResourceError ErrInit))
      | Some store \<Rightarrow>
          if period = 0 then Some (Err (ResourceError ErrInvalidValue))
          else
            let specificversion = (version > 0);
                version = (if version > 0 then version else 1);
                hops = 0;
                maxLookup = (case maxLookup of None \<Rightarrow> queryMaxPeriods self | Some m \<Rightarrow> m)
            in period_scan e self store rsrc specificversion version maxLookup period hops)"

text \<open>
  \<open>LoadResource\<close>: the chunk is fetched, checked for the two leading zero bytes and for
  more than 18 bytes, and decoded into a fresh entry.
\<close>

definition LoadResource ::
  "env \<Rightarrow> ResourceHandler \<Rightarrow> bytes \<Rightarrow> (resource \<times> ResourceHandler) outcome" where
  "LoadResource e self key =
     (case chunkStore self of
        None \<Rightarrow> Panic
      | Some store \<Rightarrow>
          (case store_get store key of
             None \<Rightarrow> Err (ResourceError ErrNotFound)
           | Some chunk \<Rightarrow>
               obind (reslice (mkslice (SData chunk)) 0 2) (\<lambda>head.
               if elems head \<noteq> [0, 0] then Err (ResourceError ErrCorruptData)
               else if length (SData chunk) \<le> metadataChunkOffsetSize
               then Err (ResourceError ErrNothingToReturn)
               else
                 obind (slice_from (mkslice (SData chunk)) 2) (\<lambda>body.
                 obind (UnmarshalBinary resource_zero body) (\<lambda>rsrc.
                 let rsrc = rsrc\<lparr>r_nameHash := EnsNode e (r_name rsrc)\<rparr>
                 in Ok (rsrc, setResource self (r_nameHash rsrc) rsrc))))))"

section \<open>The Kademlia table (swarm/network/kademlia.go)\<close>

subsection \<open>Peers and entries\<close>

text \<open>
  A peer is seen through one of two interfaces: as a peer record (\<open>OverlayAddr\<close>) or as a
  live connection (\<open>OverlayConn\<close>); both have an address.
  Modelled from the spec: \<open>Off()\<close> of a connection, which is implemented outside these
  sources, projects the connection back to the record of the same peer.
\<close>

datatype peer = OverlayAddr (Address: bytes) | OverlayConn (Address: bytes)

definition peer_Off :: "peer \<Rightarrow> peer" where
  "peer_Off p = OverlayAddr (Address p)"

text \<open>The table entry; \<open>seenAt\<close> is the clock reading at creation.\<close>

record entry =
  OverlayPeer :: peer
  seenAt :: nat
  retries :: int

definition newEntry :: "nat \<Rightarrow> peer \<Rightarrow> entry" where
  "newEntry now p = \<lparr>OverlayPeer = p, seenAt = now, retries = 0\<rparr>"

definition entry_Address :: "entry \<Rightarrow> bytes" where
  "entry_Address e = Address (OverlayPeer e)"

subsection \<open>The proximity-order trie\<close>

text \<open>
  Modelled from the spec: the proximity order of two keys is the index of the first bit
  in which they differ, counted from the most significant bit of the first byte; equal
  keys have the bit length 256 (\<open>pot.DefaultPof(256)\<close>).
\<close>

definition byte_po :: "byte \<Rightarrow> byte \<Rightarrow> nat" where
  "byte_po x y = length (takeWhile (\<lambda>i. bit x i = bit y i) [7, 6, 5, 4, 3, 2, 1, 0])"

fun po_loop :: "bytes \<Rightarrow> bytes \<Rightarrow> nat" where
  "po_loop (x # xs) (y # ys) = (if x = y then 8 + po_loop xs ys else byte_po x y)"
| "po_loop xs ys = 0"

definition proximity :: "bytes \<Rightarrow> bytes \<Rightarrow> nat" where
  "proximity a b = (if a = b then 256 else min 256 (po_loop a b))"

text \<open>
  Modelled from the spec: the trie of the \<open>pot\<close> package, which is not part of these
  sources, with the operations the table uses. A trie holds at most one value per address;
  it is the list of its values here. \<open>Swap(key, f)\<close> hands \<open>f\<close> the value at the key
  (or nil) and puts what \<open>f\<close> returns in its place (nil removes); \<open>Add\<close> inserts or
  replaces; \<open>Union\<close> adds the values of the second trie whose addresses the first does
  not hold; \<open>EachNeighbour(base, f)\<close> calls \<open>f(value, po)\<close> on the values by descending
  proximity order to \<open>base\<close>, nearest first, until \<open>f\<close> returns false. The visitor's
  variables are passed along as a state.
\<close>

type_synonym pot = "entry list"

definition NewPot :: pot where
  "NewPot = []"

definition pot_Size :: "pot \<Rightarrow> nat" where
  "pot_Size t = length t"

definition pot_find :: "pot \<Rightarrow> bytes \<Rightarrow> entry option" where
  "pot_find t key = find (\<lambda>e. entry_Address e = key) t"

definition pot_Swap :: "pot \<Rightarrow> bytes \<Rightarrow> (entry option \<Rightarrow> entry option) \<Rightarrow> pot" where
  "pot_Swap t key f =
     (case f (pot_find t key) of
        None \<Rightarrow> filter (\<lambda>e. entry_Address e \<noteq> key) t
      | Some v \<Rightarrow> v # filter (\<lambda>e. entry_Address e \<noteq> key) t)"

definition pot_Add :: "pot \<Rightarrow> entry \<Rightarrow> pot" where
  "pot_Add t v = pot_Swap t (entry_Address v) (\<lambda>old. Some v)"

definition pot_Union :: "pot \<Rightarrow> pot \<Rightarrow> pot" where
  "pot_Union t0 t1 = t0 @ filter (\<lambda>e. entry_Address e \<notin> set (map entry_Address t0)) t1"

definition neighbours :: "pot \<Rightarrow> bytes \<Rightarrow> entry list" where
  "neighbours t base = rev (sort_key (\<lambda>e. proximity (entry_Address e) base) t)"

fun each :: "('s \<Rightarrow> entry \<Rightarrow> int \<Rightarrow> bool \<times> 's) \<Rightarrow> bytes \<Rightarrow> 's \<Rightarrow> entry list \<Rightarrow> 's" where
  "each f base s [] = s"
| "each f base s (v # rest) =
     (case f s v (int (proximity (entry_Address v) base)) of
        (True, s') \<Rightarrow> each f base s' rest
      | (False, s') \<Rightarrow> s')"

definition EachNeighbour :: "pot \<Rightarrow> bytes \<Rightarrow> ('s \<Rightarrow> entry \<Rightarrow> int \<Rightarrow> bool \<times> 's) \<Rightarrow> 's \<Rightarrow> 's" where
  "EachNeighbour t base f s = each f base s (neighbours t base)"

subsection \<open>The table\<close>

record KadParams =
  MaxProxDisplay :: int
  MinProxBinSize :: int
  MinBinSize :: int
  MaxBinSize :: int
  RetryInterval :: int
  RetryExponent :: int
  MaxRetries :: int
  PruneInterval :: int
  HealthCheck :: bool

definition NewKadParams :: KadParams where
  "NewKadParams = \<lparr>MaxProxDisplay = 8, MinProxBinSize = 2, MinBinSize = 2, MaxBinSize = 4,
     RetryInterval = 420000000, RetryExponent = 2, MaxRetries = 42, PruneInterval = 0,
     HealthCheck = False\<rparr>"

record Kademlia =
  params :: KadParams
  base :: bytes
  addrs :: pot
  conns :: pot
  currentDepth :: "8 word"

definition NewKademlia :: "bytes \<Rightarrow> KadParams option \<Rightarrow> Kademlia" where
  "NewKademlia addr ps =
     \<lparr>params = (case ps of None \<Rightarrow> NewKadParams | Some p \<Rightarrow> p), base = addr,
      addrs = NewPot, conns = NewPot, currentDepth = 0\<rparr>"

text \<open>
  \<open>Register\<close> on a stream that ends (the list of the peers received): the peers are
  collected in a fresh trie, and the call returns an error, leaving the table as it is,
  as soon as a peer has the base address; otherwise the trie is merged into \<open>addrs\<close>.
\<close>

fun Register_collect :: "bytes \<Rightarrow> nat \<Rightarrow> pot \<Rightarrow> peer list \<Rightarrow> error + pot" where
  "Register_collect b now np [] = Inr np"
| "Register_collect b now np (p # peers) =
     (if Address p = b then Inl PlainError
      else Register_collect b now (pot_Add np (newEntry now p)) peers)"

definition Register :: "Kademlia \<Rightarrow> nat \<Rightarrow> peer list \<Rightarrow> error option \<times> Kademlia" where
  "Register k now peers =
     (case Register_collect (base k) now NewPot peers of
        Inl err \<Rightarrow> (Some err, k)
      | Inr np \<Rightarrow> (None, k\<lparr>addrs := pot_Union (addrs k) np\<rparr>))"

text \<open>
  \<open>On\<close>: the entry is inserted into \<open>conns\<close> unless the peer is found there, and then
  (\<open>ins\<close>) also put into \<open>addrs\<close>. The health-check event and the notification, which
  runs on its own, change neither trie.
\<close>

definition On :: "Kademlia \<Rightarrow> nat \<Rightarrow> peer \<Rightarrow> Kademlia" where
  "On k now p =
     (let e = newEntry now p;
          ins = (pot_find (conns k) (Address p) = None);
          k = k\<lparr>conns := pot_Swap (conns k) (Address p)
                            (\<lambda>v. case v of None \<Rightarrow> Some e | Some v \<Rightarrow> Some v)\<rparr>
      in if ins then k\<lparr>addrs := pot_Swap (addrs k) (Address p) (\<lambda>v. Some e)\<rparr> else k)"

text \<open>
  \<open>Off\<close>: the function given to \<open>Swap\<close> on \<open>addrs\<close> panics when the peer is not
  found; otherwise the entry is replaced by one for \<open>p.Off()\<close> and the peer is removed
  from \<open>conns\<close>.
\<close>

definition Off :: "Kademlia \<Rightarrow> nat \<Rightarrow> peer \<Rightarrow> Kademlia outcome" where
  "Off k now p =
     (case pot_find (addrs k) (Address p) of
        None \<Rightarrow> Panic
      | Some v \<Rightarrow>
          let k = k\<lparr>addrs := pot_Swap (addrs k) (Address p)
                                (\<lambda>v. Some (newEntry now (peer_Off p)))\<rparr>
          in Ok (k\<lparr>conns := pot_Swap (conns k) (Address p) (\<lambda>v. None)\<rparr>))"

text \<open>
  \<open>depth\<close>: the visitor counts the connections it is shown (\<open>size\<close>, here \<open>sz\<close>),
  records the proximity order of the last one (\<open>depth\<close>, here \<open>dp\<close>) and stops when the
  count reaches \<open>MinProxBinSize\<close>.
\<close>

definition depth_visitor :: "int \<Rightarrow> int \<times> int \<Rightarrow> entry \<Rightarrow> int \<Rightarrow> bool \<times> int \<times> int" where
  "depth_visitor minProxBinSize s v i =
     (case s of (sz, dp) \<Rightarrow>
        let sz = sz + 1;
            dp = i
        in (sz < minProxBinSize, (sz, dp)))"

definition depth :: "Kademlia \<Rightarrow> int" where
  "depth k =
     (if int (pot_Size (conns k)) < MinProxBinSize (params k) then 0
      else snd (EachNeighbour (conns k) (base k)
                  (depth_visitor (MinProxBinSize (params k))) (0, 0)))"

text \<open>The tables that finished calls of \<open>Register\<close>, \<open>On\<close> and \<open>Off\<close> lead to.\<close>

inductive reachable :: "Kademlia \<Rightarrow> bool" where
  init: "reachable (NewKademlia addr ps)"
| register: "reachable k \<Longrightarrow> Register k now peers = (err, k') \<Longrightarrow> reachable k'"
| on: "reachable k \<Longrightarrow> reachable (On k now p)"
| off: "reachable k \<Longrightarrow> Off k now p = Ok k' \<Longrightarrow> reachable k'"

text \<open>The number of live connections at proximity order \<open>d\<close> or more.\<close>

definition conns_at_least :: "Kademlia \<Rightarrow> nat \<Rightarrow> nat" where
  "conns_at_least k d =
     length (filter (\<lambda>e. d \<le> proximity (entry_Address e) (base k)) (conns k))"

text \<open>
  The addresses a trie holds, and the property of the tries of the \<open>pot\<close> package that
  the list stands for: one value per address. A table is well formed when both of its tries
  are and every address in \<open>conns\<close> is in \<open>addrs\<close>.
\<close>

definition pot_keys :: "pot \<Rightarrow> bytes set" where
  "pot_keys t = set (map entry_Address t)"

definition pot_ok :: "pot \<Rightarrow> bool" where
  "pot_ok t = distinct (map entry_Address t)"

definition table_ok :: "Kademlia \<Rightarrow> bool" where
  "table_ok k \<longleftrightarrow> pot_ok (addrs k) \<and> pot_ok (conns k) \<and> pot_keys (conns k) \<subseteq> pot_keys (addrs k)"

subsection \<open>Example inputs\<close>

text \<open>
  Concrete oracles and handlers on which the functions above are run. \<open>hash_ex\<close> stands
  in for the hash function: the first 32 bytes of its zero-padded argument.
\<close>

definition hash_ex :: "bytes \<Rightarrow> bytes" where
  "hash_ex b = take 32 (b @ replicate 32 0)"

definition env_ex :: env where
  "env_ex = \<lparr>hashFunc = hash_ex, EnsNode = hash_ex, SigToPub = (\<lambda>d s. Inr (take 20 s)),
     PubkeyToAddress = (\<lambda>p. p), ToASCII = (\<lambda>n. Inr n), storeAck = (\<lambda>c. Stored)\<rparr>"

text \<open>The resource \<open>a\<close>, created at block 4200 with frequency 42; the current block is 4242.\<close>

definition rsrc_ex :: resource where
  "rsrc_ex = resource_zero\<lparr>r_startBlock := 4200, r_frequency := 42, r_name := [97],
     r_nameHash := hash_ex [97], r_updated := True\<rparr>"

definition rh_ex :: ResourceHandler where
  "rh_ex = \<lparr>chunkStore = Some [newMetaChunk hash_ex [97] 4200 42], signer = None,
     headerGetter = Some (\<lambda>n. Inr 4242), ownerValidator = None,
     resources = [hash_ex [97] \<mapsto> rsrc_ex],
     queryMaxPeriods = \<lparr>Limit = False, Max = 0\<rparr>\<rparr>"

text \<open>The same handler with a signer, and the same handler before \<open>SetStore\<close>.\<close>

definition rh_signing :: ResourceHandler where
  "rh_signing = rh_ex\<lparr>signer := Some (\<lambda>d. Inr (replicate 65 7))\<rparr>"

definition rh_unbound :: ResourceHandler where
  "rh_unbound = rh_ex\<lparr>chunkStore := None\<rparr>"

text \<open>
  A stand-in for public-key recovery whose result depends on the digest, as recovery
  does, and a handler whose owner validator accepts one address: the one recovered from
  the digest of the empty key and the payload \<open>hi\<close>.
\<close>

definition owner_ex :: bytes where
  "owner_ex = [104, 105] @ replicate 18 0"

definition env_digest :: env where
  "env_digest = env_ex\<lparr>SigToPub := (\<lambda>d s. Inr (take 20 d))\<rparr>"

definition rh_owner :: ResourceHandler where
  "rh_owner = rh_signing\<lparr>ownerValidator := Some (\<lambda>name addr. (addr = owner_ex, None))\<rparr>"

text \<open>An unsigned update chunk: name \<open>a\<close>, payload \<open>hi\<close>, period 2, version 1.\<close>

definition chunk_unsigned :: bytes where
  "chunk_unsigned = [9, 0, 2, 0, 2, 0, 0, 0, 1, 0, 0, 0, 97, 104, 105]"

text \<open>Eighteen bytes with header length 0 and data length 10, and eighteen zero bytes.\<close>

definition chunk_short_header :: bytes where
  "chunk_short_header = [0, 0, 10, 0] @ replicate 14 0"

definition chunk_zeros :: bytes where
  "chunk_zeros = replicate 18 0"

text \<open>
  Tables with base address zero and \<open>MinProxBinSize = 2\<close>: connections at proximity
  orders 5 and 3, and at proximity orders 5 and 0.
\<close>

definition base_ex :: bytes where
  "base_ex = replicate 32 0"

definition peer_po :: "byte \<Rightarrow> peer" where
  "peer_po b = OverlayConn (b # replicate 31 0)"

definition kad_5_3 :: Kademlia where
  "kad_5_3 = On (On (NewKademlia base_ex None) 0 (peer_po 0x04)) 0 (peer_po 0x10)"

definition kad_5_0 :: Kademlia where
  "kad_5_0 = On (On (NewKademlia base_ex None) 0 (peer_po 0x04)) 0 (peer_po 0x80)"

text \<open>
  A table after one call of each kind: a peer record is registered, two peers connect, and
  the first of them disconnects.
\<close>

definition kad_walk :: Kademlia where
  "kad_walk =
     (let k = snd (Register (NewKademlia base_ex None) 0 [OverlayAddr (0x01 # replicate 31 0)]);
          k = On (On k 1 (peer_po 0x04)) 1 (peer_po 0x10)
      in case Off k 2 (peer_po 0x04) of Ok k' \<Rightarrow> k' | _ \<Rightarrow> k)"

section \<open>Properties\<close>

subsection \<open>Little-endian round trips\<close>

lemma bit_byte0:
  "bit (ucast (ucast (v :: 'a::len word) :: 8 word) :: 'a word) n \<longleftrightarrow> n < 8 \<and> bit v n"
  by (auto simp: bit_simps dest: bit_imp_le_length)

lemma bit_byte_part:
  "bit (push_bit k (ucast (ucast (drop_bit k (v :: 'a::len word)) :: 8 word) :: 'a word)) n
   \<longleftrightarrow> k \<le> n \<and> n < k + 8 \<and> bit v n"
  by (auto simp: bit_simps dest: bit_imp_le_length)

lemma Uint16_PutUint16: "Uint16 (PutUint16 v @ rest) = v"
proof (rule bit_word_eqI)
  fix n assume n: "n < LENGTH(16)"
  have "bit (Uint16 (PutUint16 v @ rest)) n \<longleftrightarrow> (n < 8 \<or> 8 \<le> n \<and> n < 8 + 8) \<and> bit v n"
    unfolding Uint16_def PutUint16_def
    by (simp add: bit_or_iff bit_byte0 bit_byte_part del: bit_ucast_iff bit_push_bit_iff) blast
  also have "\<dots> \<longleftrightarrow> bit v n" using n by auto
  finally show "bit (Uint16 (PutUint16 v @ rest)) n = bit v n" .
qed

lemma Uint32_PutUint32: "Uint32 (PutUint32 v @ rest) = v"
proof (rule bit_word_eqI)
  fix n assume n: "n < LENGTH(32)"
  have "bit (Uint32 (PutUint32 v @ rest)) n \<longleftrightarrow>
        (n < 8 \<or> 8 \<le> n \<and> n < 8 + 8 \<or> 16 \<le> n \<and> n < 16 + 8 \<or> 24 \<le> n \<and> n < 24 + 8)
        \<and> bit v n"
    unfolding Uint32_def PutUint32_def
    by (simp add: bit_or_iff bit_byte0 bit_byte_part del: bit_ucast_iff bit_push_bit_iff) blast
  also have "\<dots> \<longleftrightarrow> bit v n" using n by auto
  finally show "bit (Uint32 (PutUint32 v @ rest)) n = bit v n" .
qed

lemma Uint64_PutUint64: "Uint64 (PutUint64 v @ rest) = v"
proof (rule bit_word_eqI)
  fix n assume n: "n < LENGTH(64)"
  have "bit (Uint64 (PutUint64 v @ rest)) n \<longleftrightarrow>
        (n < 8 \<or> 8 \<le> n \<and> n < 8 + 8 \<or> 16 \<le> n \<and> n < 16 + 8 \<or> 24 \<le> n \<and> n < 24 + 8
         \<or> 32 \<le> n \<and> n < 32 + 8 \<or> 40 \<le> n \<and> n < 40 + 8 \<or> 48 \<le> n \<and> n < 48 + 8
         \<or> 56 \<le> n \<and> n < 56 + 8) \<and> bit v n"
    unfolding Uint64_def PutUint64_def
    by (simp add: bit_or_iff bit_byte0 bit_byte_part del: bit_ucast_iff bit_push_bit_iff) blast
  also have "\<dots> \<longleftrightarrow> bit v n" using n by simp linarith
  finally show "bit (Uint64 (PutUint64 v @ rest)) n = bit v n" .
qed

lemma length_PutUint16 [simp]: "length (PutUint16 v) = 2"
  by (simp add: PutUint16_def)

lemma length_PutUint32 [simp]: "length (PutUint32 v) = 4"
  by (simp add: PutUint32_def)

lemma length_PutUint64 [simp]: "length (PutUint64 v) = 8"
  by (simp add: PutUint64_def)

subsection \<open>The layout of chunks\<close>

lemma copy_at_fill:
  "length a = pos \<Longrightarrow> length src \<le> n \<Longrightarrow>
   copy_at (a @ replicate n 0) pos src = a @ src @ replicate (n - length src) 0"
  by (simp add: copy_at_def min_def)

lemma copy_at_fill0:
  "length src \<le> n \<Longrightarrow> copy_at (replicate n 0) 0 src = src @ replicate (n - length src) 0"
  using copy_at_fill [of "[]" 0 src n] by simp

lemma copy_at_fill2:
  "length a + length b = pos \<Longrightarrow> length src \<le> n \<Longrightarrow>
   copy_at (a @ b @ replicate n 0) pos src = a @ b @ src @ replicate (n - length src) 0"
  using copy_at_fill [of "a @ b" pos src n] by simp

lemma copy_at_fill3:
  "length a + length b + length c = pos \<Longrightarrow> length src \<le> n \<Longrightarrow>
   copy_at (a @ b @ c @ replicate n 0) pos src = a @ b @ c @ src @ replicate (n - length src) 0"
  using copy_at_fill [of "a @ b @ c" pos src n] by simp

lemma copy_at_fill4:
  "length a + length b + length c + length d = pos \<Longrightarrow> length src \<le> n \<Longrightarrow>
   copy_at (a @ b @ c @ d @ replicate n 0) pos src
   = a @ b @ c @ d @ src @ replicate (n - length src) 0"
  using copy_at_fill [of "a @ b @ c @ d" pos src n] by simp

lemma copy_at_fill5:
  "length a + length b + length c + length d + length e = pos \<Longrightarrow> length src \<le> n \<Longrightarrow>
   copy_at (a @ b @ c @ d @ e @ replicate n 0) pos src
   = a @ b @ c @ d @ e @ src @ replicate (n - length src) 0"
  using copy_at_fill [of "a @ b @ c @ d @ e" pos src n] by simp

lemma copy_at_fill6:
  "length a + length b + length c + length d + length e + length f = pos \<Longrightarrow> length src \<le> n \<Longrightarrow>
   copy_at (a @ b @ c @ d @ e @ f @ replicate n 0) pos src
   = a @ b @ c @ d @ e @ f @ src @ replicate (n - length src) 0"
  using copy_at_fill [of "a @ b @ c @ d @ e @ f" pos src n] by simp

lemmas copy_at_fills = copy_at_fill0 copy_at_fill copy_at_fill2 copy_at_fill3 copy_at_fill4
  copy_at_fill5 copy_at_fill6


lemma newUpdateChunk_unsigned:
  "SData (newUpdateChunk key None period version name data datalength)
   = PutUint16 (word_of_nat (length name + 8)) @ PutUint16 (word_of_int datalength)
     @ PutUint32 period @ PutUint32 version @ name @ data"
  by (simp add: newUpdateChunk_def Let_def copy_at_fills add.commute)

lemma newUpdateChunk_signed:
  "length sg = 65 \<Longrightarrow>
   SData (newUpdateChunk key (Some sg) period version name data datalength)
   = PutUint16 (word_of_nat (length name + 8)) @ PutUint16 (word_of_int datalength)
     @ PutUint32 period @ PutUint32 version @ name @ data @ sg"
  by (simp add: newUpdateChunk_def Let_def copy_at_fills signatureLength_def nat_add_distrib add.commute)

lemma zeros_split: "replicate (metadataChunkOffsetSize + n) (0 :: byte) = [0, 0] @ replicate (16 + n) 0"
proof -
  have "metadataChunkOffsetSize + n = 2 + (16 + n)" by (simp add: metadataChunkOffsetSize_def)
  then have "replicate (metadataChunkOffsetSize + n) (0 :: byte) = replicate 2 0 @ replicate (16 + n) 0"
    by (simp only: replicate_add)
  then show ?thesis by (simp add: numeral_2_eq_2)
qed

lemma newMetaChunk_SData:
  "SData (newMetaChunk H name startBlock frequency)
   = [0, 0] @ PutUint64 startBlock @ PutUint64 frequency @ name"
proof -
  let ?z = "replicate (metadataChunkOffsetSize + length name) (0 :: byte)"
  have a: "copy_at ?z 2 (PutUint64 startBlock) = [0, 0] @ PutUint64 startBlock @ replicate (8 + length name) 0"
    unfolding zeros_split using copy_at_fill [of "[0, 0]" 2 "PutUint64 startBlock" "16 + length name"]
    by simp
  have b: "copy_at ([0, 0] @ PutUint64 startBlock @ replicate (8 + length name) 0) 10 (PutUint64 frequency)
           = [0, 0] @ PutUint64 startBlock @ PutUint64 frequency @ replicate (length name) 0"
    using copy_at_fill2 [of "[0, 0]" "PutUint64 startBlock" 10 "PutUint64 frequency" "8 + length name"]
    by simp
  have c: "copy_at ([0, 0] @ PutUint64 startBlock @ PutUint64 frequency @ replicate (length name) 0) 18 name
           = [0, 0] @ PutUint64 startBlock @ PutUint64 frequency @ name"
    using copy_at_fill3 [of "[0, 0]" "PutUint64 startBlock" "PutUint64 frequency" 18 name "length name"]
    by simp
  have d: "copy_at ?z 0 ([0, 0] @ PutUint64 startBlock @ PutUint64 frequency @ name)
           = [0, 0] @ PutUint64 startBlock @ PutUint64 frequency @ name"
    using copy_at_fill0 [of "[0, 0] @ PutUint64 startBlock @ PutUint64 frequency @ name" "metadataChunkOffsetSize + length name"]
    by (simp add: metadataChunkOffsetSize_def)
  show ?thesis
    unfolding newMetaChunk_def Let_def by (simp only: a b c d Chunk.simps)
qed

lemma elems_mkslice [simp]: "elems (mkslice b) = b"
  by (simp add: elems_def mkslice_def)
lemma slen_mkslice [simp]: "slen (mkslice b) = length b"
  by (simp add: mkslice_def)
lemma scap_mkslice [simp]: "scap (mkslice b) = length b"
  by (simp add: mkslice_def scap_def)
lemma arr_mkslice [simp]: "arr (mkslice b) = b"
  by (simp add: mkslice_def)

lemma unat_word_of_nat_16: "n < 65536 \<Longrightarrow> unat (word_of_nat n :: 16 word) = n"
  by (simp add: unat_of_nat)
lemma uint_word_of_nat_16: "n < 65536 \<Longrightarrow> uint (word_of_nat n :: 16 word) = int n"
  by (simp only: uint_nat unat_word_of_nat_16)
lemma word_of_nat_16_eq_0: "n < 65536 \<Longrightarrow> (word_of_nat n :: 16 word) = 0 \<longleftrightarrow> n = 0"
  using unat_word_of_nat_16 [of n] by (auto simp del: unat_of_nat)

lemma reslice_mkslice:
  "0 \<le> lo \<Longrightarrow> lo \<le> hi \<Longrightarrow> hi \<le> int (length b) \<Longrightarrow>
   reslice (mkslice b) lo hi = Ok (Slice (drop (nat lo) b) (nat (hi - lo)))"
  by (simp add: reslice_def)

lemma parse_layout:
  assumes hl: "uint hl = int (length name) + 8"
    and n: "name \<noteq> []"
    and dl0: "dl \<noteq> 0" and dl: "uint dl = int (length data)"
    and fit: "length name + length data + 12 < 65536"
    and sg: "if has_signer then length sg = 65 else sg = []"
  shows "parseUpdate has_signer
           (mkslice (PutUint16 hl @ PutUint16 dl @ PutUint32 p @ PutUint32 v @ name @ data @ sg))
         = Ok (if has_signer then Some sg else None, p, v, name, data, False)"
proof -
  define b where "b = PutUint16 hl @ PutUint16 dl @ PutUint32 p @ PutUint32 v @ name @ data @ sg"
  have lenb: "length b = 12 + length name + length data + length sg" by (simp add: b_def)
  have d: "data \<noteq> []" using dl0 dl by (auto simp: uint_0_iff)
  have ge14: "\<not> length b < 14" using n d lenb by (cases name; cases data) simp_all
  have h1: "Uint16 (drop (nat 0) b) = hl" by (simp add: b_def Uint16_PutUint16)
  have h2: "Uint16 (drop (nat (0 + 2)) b) = dl" by (simp add: b_def Uint16_PutUint16)
  have h3: "Uint32 (drop (nat (0 + 2 + 2)) b) = p" by (simp add: b_def Uint32_PutUint32)
  have h4: "Uint32 (drop (nat (0 + 2 + 2 + 4)) b) = v" by (simp add: b_def Uint32_PutUint32)
  have probe: "multihash_probe (mkslice b) hl dl = Ok ()"
    using dl0 by (simp add: multihash_probe_def)
  have excl: "uint (hl + dl + 4) = int (length name) + int (length data) + 12"
    using fit by (simp add: uint_word_ariths hl dl)
  have chk: "\<not> (uint (hl + dl + 4) > int (length b) \<or> uint (hl + dl + 4) < 14)"
    using excl lenb n d by (cases name; cases data) simp_all
  have dr12: "drop 12 b = name @ data @ sg" by (simp add: b_def)
  have dr: "drop (12 + length name) b = data @ sg" by (simp add: b_def)
  have dr2: "drop (12 + length name + length data) b = sg" by (simp add: b_def)
  have nm: "reslice (mkslice b) (0 + 2 + 2 + 4 + 4) (0 + 2 + 2 + 4 + 4 + (uint hl - (0 + 2 + 2 + 4 + 4) + 4))
            = Ok (Slice (name @ data @ sg) (length name))"
    unfolding hl by (simp add: reslice_def lenb dr12)
  have mc: "make_copy (mkslice b) (0 + 2 + 2 + 4 + 4 + (uint hl - (0 + 2 + 2 + 4 + 4) + 4)) (uint dl)
            = Ok data"
    unfolding hl dl by (simp add: make_copy_def reslice_def elems_def lenb nat_add_distrib dr)
  have sgn: "has_signer \<Longrightarrow>
     reslice (mkslice b) (0 + 2 + 2 + 4 + 4 + (uint hl - (0 + 2 + 2 + 4 + 4) + 4) + uint dl)
        (0 + 2 + 2 + 4 + 4 + (uint hl - (0 + 2 + 2 + 4 + 4) + 4) + uint dl + signatureLength)
     = Ok (Slice sg 65)"
    unfolding hl dl using sg by (simp add: reslice_def lenb signatureLength_def nat_add_distrib dr2)
  have "parseUpdate has_signer (mkslice b)
        = Ok (if has_signer then Some sg else None, p, v, name, data, False)"
    unfolding parseUpdate_def Let_def elems_mkslice slen_mkslice
    using sg
    apply (simp only: ge14 h1 h2 h3 h4 probe chk nm mc dl0 if_False obind.simps prod.case)
    apply (cases has_signer)
     apply (simp_all only: sgn if_True if_False obind.simps)
     apply (simp_all add: elems_def)
    done
  then show ?thesis by (simp only: b_def)
qed

lemma Uvarint_loop_ext:
  "Uvarint_loop i x buf = (v, c) \<Longrightarrow> 0 < c \<Longrightarrow>
   int i < c \<and> nat c - i \<le> length buf
   \<and> Uvarint_loop i x (buf @ ext) = (v, c)
   \<and> ReadUvarint_loop i x (buf @ ext) = Some (v, drop (nat c - i) buf @ ext)"
proof (induction buf arbitrary: i x)
  case Nil
  then show ?case by simp
next
  case (Cons b bs)
  show ?case
  proof (cases "b < 0x80")
    case True
    have one: "nat (int i + 1) - i = 1" by simp
    from True Cons.prems show ?thesis by (auto simp: one split: if_splits)
  next
    case False
    with Cons.prems have rec: "Uvarint_loop (i + 1) (x OR push_bit (7 * i) (ucast (b AND 0x7f))) bs = (v, c)"
      by simp
    note ih = Cons.IH [OF rec Cons.prems(2)]
    from ih have lt: "int (i + 1) < c" by blast
    then have suc: "nat c - i = Suc (nat c - (i + 1))" by linarith
    show ?thesis using False ih lt by (simp add: suc)
  qed
qed

lemma Uvarint_ext:
  assumes "Uvarint buf = (v, c)" and "0 < c"
  shows "nat c \<le> length buf \<and> Uvarint (buf @ ext) = (v, c)
    \<and> ReadUvarint (buf @ ext) = Some (v, drop (nat c) buf @ ext)"
  using Uvarint_loop_ext [of 0 0 buf v c ext] assms
  by (simp add: Uvarint_def ReadUvarint_def)

lemma isMultihash_exactD:
  assumes "isMultihash data = int (length data)" and "data \<noteq> []"
  obtains t c1 h c2 where "Uvarint data = (t, c1)" and "0 < c1"
    and "Uvarint (drop (nat c1) data) = (h, c2)" and "0 < c2"
    and "c1 + c2 + sint h = int (length data)"
    and "\<not> int (length (drop (nat (c1 + c2)) data)) < sint h"
proof -
  obtain t c1 where u1: "Uvarint data = (t, c1)" by (cases "Uvarint data")
  obtain h c2 where u2: "Uvarint (drop (nat c1) data) = (h, c2)"
    by (cases "Uvarint (drop (nat c1) data)")
  from assms u1 u2 have "0 < c1 \<and> 0 < c2 \<and> c1 + c2 + sint h = int (length data)
      \<and> \<not> int (length (drop (nat (c1 + c2)) data)) < sint h"
    by (simp add: isMultihash_def Let_def split: if_splits)
  with u1 u2 that show thesis by blast
qed

lemma isMultihash_ext:
  assumes mh: "isMultihash data = int (length data)" and d: "data \<noteq> []"
  shows "isMultihash (data @ ext) = int (length data)"
    and "\<exists>r rest r' rest'. ReadUvarint (data @ ext) = Some (r, rest) \<and> ReadUvarint rest = Some (r', rest')"
proof -
  from mh d obtain t c1 h c2 where u1: "Uvarint data = (t, c1)" and c1: "0 < c1"
    and u2: "Uvarint (drop (nat c1) data) = (h, c2)" and c2: "0 < c2"
    and tot: "c1 + c2 + sint h = int (length data)"
    and fits: "\<not> int (length (drop (nat (c1 + c2)) data)) < sint h"
    by (rule isMultihash_exactD)
  have e1: "nat c1 \<le> length data" "Uvarint (data @ ext) = (t, c1)"
    "ReadUvarint (data @ ext) = Some (t, drop (nat c1) data @ ext)"
    using Uvarint_ext [OF u1 c1, of ext] by simp_all
  have e2: "nat c2 \<le> length (drop (nat c1) data)" "Uvarint (drop (nat c1) data @ ext) = (h, c2)"
    "ReadUvarint (drop (nat c1) data @ ext) = Some (h, drop (nat c2) (drop (nat c1) data) @ ext)"
    using Uvarint_ext [OF u2 c2, of ext] by simp_all
  have dr1: "drop (nat c1) (data @ ext) = drop (nat c1) data @ ext"
    using e1(1) by simp
  have le2: "nat c1 + nat c2 \<le> length data" using e1(1) e2(1) by simp
  have dr2: "drop (nat (c1 + c2)) (data @ ext) = drop (nat (c1 + c2)) data @ ext"
    using le2 c1 c2 by (simp add: nat_add_distrib)
  have u1': "Uvarint (data @ ext) = (t, c1)" by (rule e1(2))
  have u2': "Uvarint (drop (nat c1) (data @ ext)) = (h, c2)" by (simp only: dr1 e2(2))
  have fits': "\<not> int (length (drop (nat (c1 + c2)) (data @ ext))) < sint h"
    using fits by (simp only: dr2) simp
  have "isMultihash (data @ ext)
        = (if c1 \<le> 0 then 0 else if c2 \<le> 0 then 0
           else if int (length (drop (nat (c1 + c2)) (data @ ext))) < sint h then 0
           else c1 + c2 + sint h)"
    unfolding isMultihash_def Let_def by (simp only: u1' prod.case add_0 u2')
  then show "isMultihash (data @ ext) = int (length data)"
    using c1 c2 tot fits' by (simp del: drop_append length_append length_drop)
  show "\<exists>r rest r' rest'. ReadUvarint (data @ ext) = Some (r, rest) \<and> ReadUvarint rest = Some (r', rest')"
    using e1(3) e2(3) by blast
qed

lemma parse_layout_multihash:
  assumes hl: "uint hl = int (length name) + 8"
    and n2: "2 \<le> length name"
    and mh: "isMultihash data = int (length data)" and d: "data \<noteq> []"
    and fit: "length name + length data + 12 < 65536"
    and sg: "if has_signer then length sg = 65 else sg = []"
  shows "parseUpdate has_signer
           (mkslice (PutUint16 hl @ PutUint16 0 @ PutUint32 p @ PutUint32 v @ name @ data @ sg))
         = Ok (if has_signer then Some sg else None, p, v, name, data, True)"
proof -
  define b where "b = PutUint16 hl @ PutUint16 0 @ PutUint32 p @ PutUint32 v @ name @ data @ sg"
  define cur where "cur = 0 + 2 + 2 + 4 + 4 + (uint hl - (0 + 2 + 2 + 4 + 4) + 4)"
  have cur: "cur = int (length name) + 12" by (simp add: cur_def hl)
  have lenb: "length b = 12 + length name + length data + length sg" by (simp add: b_def)
  have ge14: "\<not> length b < 14" using n2 lenb by simp
  have h1: "Uint16 (drop (nat 0) b) = hl" by (simp add: b_def Uint16_PutUint16)
  have h2: "Uint16 (drop (nat (0 + 2)) b) = 0" by (simp add: b_def Uint16_PutUint16)
  have h3: "Uint32 (drop (nat (0 + 2 + 2)) b) = p" by (simp add: b_def Uint32_PutUint32)
  have h4: "Uint32 (drop (nat (0 + 2 + 2 + 4)) b) = v" by (simp add: b_def Uint32_PutUint32)
  have dr12: "drop 12 b = name @ data @ sg" by (simp add: b_def)
  have dr: "drop (12 + length name) b = data @ sg" by (simp add: b_def)
  have dr2: "drop (12 + length name + length data) b = sg" by (simp add: b_def)
  have dr': "drop (length name + 12) b = data @ sg" by (simp add: b_def)
  have dr2': "drop (length name + 12 + length data) b = sg" by (simp add: b_def)
  have uh4: "uint (hl + 4) = int (length name) + 12"
    using fit by (simp add: uint_word_ariths hl)
  have excl: "uint (hl + 0 + 4) = int (length name) + 12"
    using uh4 by simp
  have tail: "slice_from (mkslice b) (int (length name) + 12)
              = Ok (Slice (data @ sg) (length data + length sg))"
    by (simp add: slice_from_def reslice_def lenb nat_add_distrib dr dr')
  have el: "elems (Slice (data @ sg) (length data + length sg)) = data @ sg"
    by (simp add: elems_def)
  from isMultihash_ext [OF mh d, of sg]
  have im: "isMultihash (data @ sg) = int (length data)"
    and rd: "\<exists>r rest r' rest'. ReadUvarint (data @ sg) = Some (r, rest) \<and> ReadUvarint rest = Some (r', rest')"
    by blast+
  have probe: "multihash_probe (mkslice b) hl 0 = Ok ()"
    using rd by (auto simp add: multihash_probe_def uh4 tail el)
  have chk: "\<not> (uint (hl + 0 + 4) > int (length b) \<or> uint (hl + 0 + 4) < 14)"
    using excl lenb n2 by simp
  have nm: "reslice (mkslice b) (0 + 2 + 2 + 4 + 4) cur
            = Ok (Slice (name @ data @ sg) (length name))"
    unfolding cur by (simp add: reslice_def lenb dr12)
  have bnd: "\<not> (int (length b) \<noteq> cur + int (length data)
               \<and> int (length b) < cur + int (length data) + signatureLength)"
    using sg by (auto simp: cur lenb signatureLength_def split: if_splits)
  have mc: "make_copy (mkslice b) cur (int (length data)) = Ok data"
    unfolding cur by (simp add: make_copy_def reslice_def elems_def lenb nat_add_distrib dr dr')
  have sgn: "has_signer \<Longrightarrow>
     reslice (mkslice b) (cur + int (length data)) (cur + int (length data) + signatureLength)
     = Ok (Slice sg 65)"
    unfolding cur using sg
    by (simp add: reslice_def lenb signatureLength_def nat_add_distrib dr2 dr2')
  have curE: "0 + 2 + 2 + 4 + 4 + (uint hl - (0 + 2 + 2 + 4 + 4) + 4) = cur" by (simp add: cur_def)
  have tail': "slice_from (mkslice b) cur = Ok (Slice (data @ sg) (length data + length sg))"
    using tail by (simp only: cur)
  have sg': "has_signer \<Longrightarrow> length sg = 65" using sg by simp
  have "parseUpdate has_signer (mkslice b)
        = Ok (if has_signer then Some sg else None, p, v, name, data, True)"
    unfolding parseUpdate_def Let_def elems_mkslice slen_mkslice
    apply (simp only: ge14 h1 h2 h3 h4 probe chk curE nm tail' el im bnd mc if_False if_True
        obind.simps prod.case refl)
    apply (cases has_signer)
     apply (simp_all only: sgn if_True if_False obind.simps)
     apply (simp_all add: elems_def sg')
    done
  then show ?thesis by (simp only: b_def)
qed

subsection \<open>Round trips\<close>

lemma UnmarshalBinary_layout:
  "UnmarshalBinary self (Slice (PutUint64 sb @ PutUint64 f @ nm) (16 + length nm))
   = Ok (self\<lparr>r_startBlock := sb, r_frequency := f, r_name := nm\<rparr>)"
proof -
  let ?d = "Slice (PutUint64 sb @ PutUint64 f @ nm) (16 + length nm)"
  have a: "reslice ?d 0 8 = Ok (Slice (PutUint64 sb @ PutUint64 f @ nm) 8)"
    by (simp add: reslice_def scap_def)
  have b: "reslice ?d 8 16 = Ok (Slice (PutUint64 f @ nm) 8)"
    by (simp add: reslice_def scap_def)
  have c: "slice_from ?d 16 = Ok (Slice nm (length nm))"
    by (simp add: slice_from_def reslice_def scap_def)
  have ea: "Uint64 (elems (Slice (PutUint64 sb @ PutUint64 f @ nm) 8)) = sb"
    using Uint64_PutUint64 [of sb "[]"] by (simp add: elems_def)
  have eb: "Uint64 (elems (Slice (PutUint64 f @ nm) 8)) = f"
    using Uint64_PutUint64 [of f "[]"] by (simp add: elems_def)
  have ec: "elems (Slice nm (length nm)) = nm" by (simp add: elems_def)
  show ?thesis
    unfolding UnmarshalBinary_def by (simp only: a b c obind.simps ea eb ec)
qed

lemma LoadResource_newMetaChunk:
  assumes st: "chunkStore self = Some store"
    and g: "store_get store mkey = Some (newMetaChunk Hf nm sb f)"
    and n: "nm \<noteq> []"
  shows "\<exists>rsrc self'. LoadResource e self mkey = Ok (rsrc, self')
           \<and> r_startBlock rsrc = sb \<and> r_frequency rsrc = f \<and> r_name rsrc = nm"
proof -
  let ?sd = "[0, 0] @ PutUint64 sb @ PutUint64 f @ nm"
  have sd: "SData (newMetaChunk Hf nm sb f) = ?sd" by (rule newMetaChunk_SData)
  have hd: "reslice (mkslice ?sd) 0 2 = Ok (Slice ?sd 2)"
    by (simp add: reslice_def)
  have eh: "elems (Slice ?sd 2) = [0, 0]" by (simp add: elems_def)
  have len: "\<not> length ?sd \<le> metadataChunkOffsetSize"
    using n by (cases nm) (simp_all add: metadataChunkOffsetSize_def)
  have body: "slice_from (mkslice ?sd) 2 = Ok (Slice (PutUint64 sb @ PutUint64 f @ nm) (16 + length nm))"
    by (simp add: slice_from_def reslice_def)
  show ?thesis
    unfolding LoadResource_def
    by (simp only: st g option.case sd hd eh len body UnmarshalBinary_layout obind.simps
          if_False Let_def not_False_eq_True refl simp_thms) simp
qed

text \<open>
  C2, as the code has it. A metadata chunk made by \<open>newMetaChunk\<close> for a non-empty name
  and fetched by \<open>LoadResource\<close> decodes to the same start block, frequency and name. An
  update chunk made by \<open>newUpdateChunk\<close> (non-empty name, non-empty payload, the chunk no
  longer than \<open>chunkSize\<close>, a 65-byte signature or none, the data length field as
  \<open>update\<close> sets it) is parsed, by a handler that has a signer exactly when the chunk is
  signed, to the same signature, period, version, name, payload and flag, provided that
  an update flagged as multihash has a payload that is exactly one multihash and a name of
  at least two bytes.
\<close>

theorem wire_round_trip:
  assumes sg: "case signature of None \<Rightarrow> True | Some s \<Rightarrow> length s = 65"
    and n: "name \<noteq> []" and d: "data \<noteq> []"
    and fits: "12 + length name + length data + (case signature of None \<Rightarrow> 0 | Some s \<Rightarrow> 65)
               \<le> nat chunkSize"
    and mh: "multihash \<longrightarrow> isMultihash data = int (length data) \<and> 2 \<le> length name"
    and st: "chunkStore self = Some store"
    and g: "store_get store mkey = Some (newMetaChunk Hf name startBlock frequency)"
  shows "parseUpdate (signature \<noteq> None)
           (mkslice (SData (newUpdateChunk key signature period version name data
                              (if \<not> multihash then int (length data) else 0))))
         = Ok (signature, period, version, name, data, multihash)
       \<and> (\<exists>rsrc self'. LoadResource e self mkey = Ok (rsrc, self')
             \<and> r_startBlock rsrc = startBlock \<and> r_frequency rsrc = frequency
             \<and> r_name rsrc = name)"
proof
  have fit: "length name + length data + 12 < 65536"
    using fits by (simp add: chunkSize_def split: option.splits)
  have hl: "uint (word_of_nat (length name + 8) :: 16 word) = int (length name) + 8"
    using fit by (simp only: uint_word_of_nat_16)
  define dlw :: "16 word" where "dlw = word_of_int (int (length data))"
  have dl: "uint dlw = int (length data)"
    using fit uint_word_of_nat_16 [of "length data"] by (simp add: dlw_def)
  have dl0: "dlw \<noteq> 0" using d dl by auto
  show "parseUpdate (signature \<noteq> None)
           (mkslice (SData (newUpdateChunk key signature period version name data
                              (if \<not> multihash then int (length data) else 0))))
         = Ok (signature, period, version, name, data, multihash)"
  proof (cases signature)
    case None
    have sg0: "if False then length ([] :: bytes) = 65 else ([] :: bytes) = []" by simp
    show ?thesis
    proof (cases multihash)
      case True
      with mh have m: "isMultihash data = int (length data)" and n2: "2 \<le> length name" by simp_all
      from parse_layout_multihash [OF hl n2 m d fit sg0, of period version]
      show ?thesis using None True by (simp add: newUpdateChunk_unsigned)
    next
      case False
      from parse_layout [OF hl n dl0 dl fit sg0, of period version]
      show ?thesis using None False by (simp add: newUpdateChunk_unsigned dlw_def)
    qed
  next
    case (Some s)
    with sg have ls: "length s = 65" by simp
    then have sg1: "if True then length s = 65 else s = []" by simp
    show ?thesis
    proof (cases multihash)
      case True
      with mh have m: "isMultihash data = int (length data)" and n2: "2 \<le> length name" by simp_all
      from parse_layout_multihash [OF hl n2 m d fit sg1, of period version]
      show ?thesis using Some True by (simp add: newUpdateChunk_signed [OF ls])
    next
      case False
      from parse_layout [OF hl n dl0 dl fit sg1, of period version]
      show ?thesis using Some False by (simp add: newUpdateChunk_signed [OF ls] dlw_def)
    qed
  qed
next
  show "\<exists>rsrc self'. LoadResource e self mkey = Ok (rsrc, self')
             \<and> r_startBlock rsrc = startBlock \<and> r_frequency rsrc = frequency
             \<and> r_name rsrc = name"
    by (rule LoadResource_newMetaChunk [OF st g n])
qed

theorem wire_round_trip_witness:
  "parseUpdate False (mkslice (SData (newUpdateChunk [] None 2 1 [97] [104, 105] 2)))
     = Ok (None, 2, 1, [97], [104, 105], False)
   \<and> parseUpdate True
       (mkslice (SData (newUpdateChunk [] (Some (replicate 65 7)) 2 1 [97, 98] [0x12, 1, 0xAA] 0)))
     = Ok (Some (replicate 65 7), 2, 1, [97, 98], [0x12, 1, 0xAA], True)
   \<and> (\<exists>rsrc self'. LoadResource env_ex rh_ex (Key (newMetaChunk hash_ex [97] 4200 42))
                        = Ok (rsrc, self')
         \<and> r_startBlock rsrc = 4200 \<and> r_frequency rsrc = 42 \<and> r_name rsrc = [97])"
proof -
  have st: "chunkStore rh_ex = Some [newMetaChunk hash_ex [97] 4200 42]"
    by (simp add: rh_ex_def)
  have g: "store_get [newMetaChunk hash_ex [97] 4200 42] (Key (newMetaChunk hash_ex [97] 4200 42))
           = Some (newMetaChunk hash_ex [97] 4200 42)"
    by (simp add: store_get_def)
  have m: "isMultihash [0x12, 1, 0xAA] = int (length [0x12, 1, 0xAA :: byte])"
    by code_simp
  have a: "parseUpdate False (mkslice (SData (newUpdateChunk [] None 2 1 [97] [104, 105] 2)))
           = Ok (None, 2, 1, [97], [104, 105], False)
         \<and> (\<exists>rsrc self'. LoadResource env_ex rh_ex (Key (newMetaChunk hash_ex [97] 4200 42))
                        = Ok (rsrc, self')
         \<and> r_startBlock rsrc = 4200 \<and> r_frequency rsrc = 42 \<and> r_name rsrc = [97])"
    using wire_round_trip [of None "[97]" "[104, 105]" False rh_ex
        "[newMetaChunk hash_ex [97] 4200 42]" "Key (newMetaChunk hash_ex [97] 4200 42)"
        hash_ex 4200 42 "[]" 2 1 env_ex] st g
    by (simp add: chunkSize_def)
  have b: "parseUpdate True
       (mkslice (SData (newUpdateChunk [] (Some (replicate 65 7)) 2 1 [97, 98] [0x12, 1, 0xAA] 0)))
     = Ok (Some (replicate 65 7), 2, 1, [97, 98], [0x12, 1, 0xAA], True)"
    using wire_round_trip [of "Some (replicate 65 7)" "[97, 98]" "[0x12, 1, 0xAA]" True
        "rh_ex\<lparr>chunkStore := Some [newMetaChunk hash_ex [97, 98] 4200 42]\<rparr>"
        "[newMetaChunk hash_ex [97, 98] 4200 42]" "Key (newMetaChunk hash_ex [97, 98] 4200 42)"
        hash_ex 4200 42 "[]" 2 1 env_ex] m
    by (simp add: chunkSize_def store_get_def)
  show ?thesis using a b by blast
qed

text \<open>
  C2 as stated fails for updates flagged as multihash. A payload that starts with a
  multihash and goes on (\<open>UpdateMultihash\<close> accepts it) does not parse back; and a valid
  multihash under a one-byte name is rejected as too short.
\<close>

theorem wire_round_trip_counterexample:
  "isMultihash [0x12, 1, 0xAA, 0xBB] \<noteq> 0
   \<and> parseUpdate False
       (mkslice (SData (newUpdateChunk [] None 2 1 [97, 98] [0x12, 1, 0xAA, 0xBB] 0)))
     = Err PlainError
   \<and> isMultihash [0x12, 1, 0xAA] = 3
   \<and> parseUpdate False (mkslice (SData (newUpdateChunk [] None 2 1 [97] [0x12, 1, 0xAA] 0)))
     = Err (ResourceError ErrNothingToReturn)"
  by code_simp

subsection \<open>Where parseUpdate panics\<close>

text \<open>
  C9. The chunk \<open>chunk_unsigned\<close> is a well-formed unsigned update: its length is
  exactly header length + data length + 4, and a handler without a signer parses it. For
  a handler with a signer the slice expression \<open>chunkdata[cursor : cursor+signatureLength]\<close>
  reaches past the end of the data, and the call panics instead of returning an error.
\<close>

theorem parseUpdate_signer_unsigned_chunk_panics:
  "chunk_unsigned = SData (newUpdateChunk [] None 2 1 [97] [104, 105] 2)
   \<and> int (length chunk_unsigned)
     = uint (Uint16 chunk_unsigned) + uint (Uint16 (drop 2 chunk_unsigned)) + 4
   \<and> parseUpdate False (mkslice chunk_unsigned) = Ok (None, 2, 1, [97], [104, 105], False)
   \<and> parseUpdate True (mkslice chunk_unsigned) = Panic"
  by code_simp

text \<open>
  C5 at its failing inputs. With header length 0 and data length 10 in 18 bytes every
  length check passes, the name length is \<open>-8\<close>, and the slice expression for the name
  panics. With header length 8 the parse succeeds with an empty name.
\<close>

theorem parseUpdate_short_header:
  "parseUpdate False (mkslice chunk_short_header) = Panic
   \<and> parseUpdate False (mkslice ([8, 0, 2, 0] @ replicate 10 0)) = Ok (None, 0, 0, [], [0, 0], False)"
  by code_simp

subsection \<open>Validate\<close>

lemma resourceHash_eq: "resourceHash Hf p v nh = Hf (PutUint32 p @ PutUint32 v @ nh)"
  by (simp add: resourceHash_def hasher_Reset_def hasher_Write_def hasher_Sum_def)

lemma keyDataHash_eq: "keyDataHash Hf key d = BytesToHash (Hf (key @ d))"
  by (simp add: keyDataHash_def hasher_Reset_def hasher_Write_def hasher_Sum_def)

text \<open>
  C4, as the code has it. If \<open>parseUpdate\<close> returns an update without signature,
  \<open>Validate(key, data)\<close> is true exactly when
  \<open>H(period_LE32 || version_LE32 || nameHash(name))\<close> equals the key. If it returns an
  update with a signature, the result is true exactly when an address is recovered from
  the digest \<open>H(key || payload)\<close> of the key and the parsed payload and either no owner
  validator is configured or \<open>ValidateOwner(name, addr)\<close> answers true. If it returns an
  error, the result is true exactly when the data has more than 18 bytes and starts with
  two zero bytes. In every other of these cases the result is false.
\<close>

theorem Validate_classification:
  "(parseUpdate (signer self \<noteq> None) data = Err err \<longrightarrow>
        Validate e self key data
        = Ok (metadataChunkOffsetSize < slen data \<and> take 2 (elems data) = [0, 0]))
   \<and> (parseUpdate (signer self \<noteq> None) data = Ok (None, period, version, name, payload, mh) \<longrightarrow>
        Validate e self key data
        = Ok (hashFunc e (PutUint32 period @ PutUint32 version @ EnsNode e name) = key))
   \<and> (parseUpdate (signer self \<noteq> None) data = Ok (Some sig, period', version', name', payload', mh') \<longrightarrow>
        Validate e self key data
        = Ok (\<exists>addr. getAddressFromDataSig e (BytesToHash (hashFunc e (key @ payload'))) sig = Inr addr
                \<and> (case ownerValidator self of
                      None \<Rightarrow> True
                    | Some ValidateOwner \<Rightarrow> fst (ValidateOwner name' addr))))"
  by (auto simp: Validate_def resourceHash_eq keyDataHash_eq checkAccess_def Let_def
           split: sum.splits option.splits)

theorem Validate_classification_witness:
  "Validate env_ex rh_ex [] (mkslice chunk_zeros) = Ok False
   \<and> Validate env_ex rh_ex [] (mkslice (SData (newMetaChunk hash_ex [97] 4200 42))) = Ok True
   \<and> Validate env_ex rh_ex (hash_ex (PutUint32 2 @ PutUint32 1 @ hash_ex [97]))
        (mkslice chunk_unsigned) = Ok True
   \<and> Validate env_ex rh_signing [] (mkslice (chunk_unsigned @ replicate 65 7)) = Ok True"
proof -
  have s0: "signer rh_ex = None" by (simp add: rh_ex_def)
  have s1: "signer rh_signing = Some (\<lambda>d. Inr (replicate 65 7))" by (simp add: rh_signing_def)
  have p2: "parseUpdate False (mkslice chunk_zeros) = Err (ResourceError ErrNothingToReturn)"
    by code_simp
  have p3: "parseUpdate False (mkslice (SData (newMetaChunk hash_ex [97] 4200 42)))
            = Err (ResourceError ErrNothingToReturn)"
    by code_simp
  have p4: "parseUpdate False (mkslice chunk_unsigned) = Ok (None, 2, 1, [97], [104, 105], False)"
    by code_simp
  have p5: "parseUpdate True (mkslice (chunk_unsigned @ replicate 65 7))
            = Ok (Some (replicate 65 7), 2, 1, [97], [104, 105], False)"
    by code_simp
  have b: "Validate env_ex rh_ex [] (mkslice chunk_zeros) = Ok False"
    using Validate_classification [where e = env_ex and self = rh_ex and key = "[]"
        and data = "mkslice chunk_zeros" and err = "ResourceError ErrNothingToReturn"] p2
    by (simp add: s0 metadataChunkOffsetSize_def chunk_zeros_def)
  have c: "Validate env_ex rh_ex [] (mkslice (SData (newMetaChunk hash_ex [97] 4200 42))) = Ok True"
    using Validate_classification [where e = env_ex and self = rh_ex and key = "[]"
        and data = "mkslice (SData (newMetaChunk hash_ex [97] 4200 42))"
        and err = "ResourceError ErrNothingToReturn"] p3
    by (simp add: s0 metadataChunkOffsetSize_def newMetaChunk_SData)
  have d: "Validate env_ex rh_ex (hash_ex (PutUint32 2 @ PutUint32 1 @ hash_ex [97]))
             (mkslice chunk_unsigned) = Ok True"
    using Validate_classification [where e = env_ex and self = rh_ex
        and key = "hash_ex (PutUint32 2 @ PutUint32 1 @ hash_ex [97])"
        and data = "mkslice chunk_unsigned" and period = 2 and version = 1 and name = "[97]"
        and payload = "[104, 105]" and mh = False] p4
    by (simp add: s0 env_ex_def)
  have e: "Validate env_ex rh_signing [] (mkslice (chunk_unsigned @ replicate 65 7)) = Ok True"
    using Validate_classification [where e = env_ex and self = rh_signing and key = "[]"
        and data = "mkslice (chunk_unsigned @ replicate 65 7)" and sig = "replicate 65 7"
        and period' = 2 and version' = 1 and name' = "[97]" and payload' = "[104, 105]"
        and mh' = False] p5
    by (simp add: s1 env_ex_def getAddressFromDataSig_def rh_signing_def rh_ex_def)
  show ?thesis using b c d e by blast
qed

text \<open>
  C4 as stated fails in three places. Eighteen zero bytes do not parse as an update, have
  length \<open>\<ge> 18\<close> and start with two zero bytes, and \<open>Validate\<close> rejects them (the code
  asks for more than 18 bytes, so that the identifier has at least one byte). A handler
  without owner validator accepts a signed update although no \<open>ValidateOwner\<close> passes
  it (\<open>checkAccess\<close> answers true when no validator is configured). And the digest is
  taken over the key and the parsed payload, as \<open>update\<close> signs it, not over the key and
  the chunk body without the signature: for the signed chunk of the payload \<open>hi\<close> the
  address recovered from the payload digest is the owner and \<open>Validate\<close> accepts, while
  the address recovered from the digest of the body without signature is not the owner.
\<close>

theorem Validate_counterexample:
  "parseUpdate (signer rh_ex \<noteq> None) (mkslice chunk_zeros) = Err (ResourceError ErrNothingToReturn)
   \<and> 18 \<le> slen (mkslice chunk_zeros)
   \<and> take 2 (elems (mkslice chunk_zeros)) = [0, 0]
   \<and> Validate env_ex rh_ex [] (mkslice chunk_zeros) = Ok False
   \<and> ownerValidator rh_signing = None
   \<and> parseUpdate (signer rh_signing \<noteq> None) (mkslice (chunk_unsigned @ replicate 65 7))
     = Ok (Some (replicate 65 7), 2, 1, [97], [104, 105], False)
   \<and> Validate env_ex rh_signing [] (mkslice (chunk_unsigned @ replicate 65 7)) = Ok True
   \<and> parseUpdate (signer rh_owner \<noteq> None) (mkslice (chunk_unsigned @ replicate 65 7))
     = Ok (Some (replicate 65 7), 2, 1, [97], [104, 105], False)
   \<and> Validate env_digest rh_owner [] (mkslice (chunk_unsigned @ replicate 65 7)) = Ok True
   \<and> getAddressFromDataSig env_digest (BytesToHash (hashFunc env_digest ([] @ [104, 105])))
        (replicate 65 7) = Inr owner_ex
   \<and> getAddressFromDataSig env_digest (BytesToHash (hashFunc env_digest ([] @ chunk_unsigned)))
        (replicate 65 7) = Inr (chunk_unsigned @ replicate 5 0)
   \<and> checkAccess rh_owner [97] owner_ex = (True, None)
   \<and> checkAccess rh_owner [97] (chunk_unsigned @ replicate 5 0) = (False, None)"
  by code_simp

subsection \<open>The key of a published update\<close>

lemma obind_Ok_iff: "obind m f = Ok y \<longleftrightarrow> (\<exists>x. m = Ok x \<and> f x = Ok y)"
  by (cases m) simp_all

lemma length_copy_at: "pos \<le> length dst \<Longrightarrow> length (copy_at dst pos src) = length dst"
  by (auto simp: copy_at_def Let_def min_def)

lemma length_newUpdateChunk:
  "length (SData (newUpdateChunk key sg p v name data dl))
   = 12 + length name + length data + (if sg = None then 0 else 65)"
  by (cases sg) (simp_all add: newUpdateChunk_def Let_def length_copy_at signatureLength_def
       nat_add_distrib)

lemma update_chunk_Ok:
  assumes "update_chunk e self name data mh = Ok (chunk, rsrc, p, v)"
  shows "getResource self (EnsNode e name) = Some rsrc
       \<and> (\<exists>currentblock. getBlock self name = Ok currentblock
              \<and> getNextPeriod (r_startBlock rsrc) currentblock (r_frequency rsrc) = Ok p)
       \<and> v = (if r_lastPeriod rsrc = p then r_version rsrc else 0) + 1
       \<and> (\<exists>sg. (sg = None \<longleftrightarrow> signer self = None)
              \<and> chunk = newUpdateChunk (resourceHash (hashFunc e) p v (r_nameHash rsrc)) sg p v
                          name data (if \<not> mh then int (length data) else 0))"
  using assms
  by (auto simp: update_chunk_def Let_def obind_Ok_iff hasUpdate_def getResource_def
           split: option.splits if_splits outcome.splits sum.splits prod.splits)

lemma update_cases:
  assumes u: "update e self name data mh = (r, self')"
  shows "(self' = self \<and> (\<forall>key. r \<noteq> Ok key))
       \<or> (\<exists>store chunk rsrc p v.
             chunkStore self = Some store
           \<and> update_chunk e self name data mh = Ok (chunk, rsrc, p, v)
           \<and> chunkStore self' = Some (chunk # store)
           \<and> (r = Ok (Key chunk) \<or> r = Err (ResourceError ErrIO)))"
proof (cases "length data = 0")
  case True
  then have "update e self name data mh = (Err (ResourceError ErrInvalidValue), self)"
    by (simp add: update_def)
  with u have "self' = self" and "r = Err (ResourceError ErrInvalidValue)" by simp_all
  then show ?thesis by simp
next
  case d: False
  show ?thesis
  proof (cases "chunkStore self")
    case None
    with d have "update e self name data mh = (Err (ResourceError ErrInit), self)"
      by (simp add: update_def)
    with u have "self' = self" and "r = Err (ResourceError ErrInit)" by simp_all
    then show ?thesis by simp
  next
    case (Some store)
    show ?thesis
    proof (cases "update_chunk e self name data mh")
      case Panic
      with d Some have "update e self name data mh = (Panic, self)"
        by (simp add: update_def)
      with u have "self' = self" and "r = Panic" by simp_all
      then show ?thesis by simp
    next
      case (Err err)
      with d Some have "update e self name data mh = (Err err, self)"
        by (simp add: update_def)
      with u have "self' = self" and "r = Err err" by simp_all
      then show ?thesis by simp
    next
      case (Ok x)
      obtain chunk rsrc p v where x: "x = (chunk, rsrc, p, v)" by (cases x)
      have uc: "update_chunk e self name data mh = Ok (chunk, rsrc, p, v)"
        using Ok x by simp
      define self1 where "self1 = self\<lparr>chunkStore := Some (chunk # store)\<rparr>"
      have c1: "chunkStore self1 = Some (chunk # store)" by (simp add: self1_def)
      have upd: "update e self name data mh
            = (let self = self\<lparr>chunkStore := Some (store_Put store chunk)\<rparr> in
               (case storeAck e chunk of
                  StoreErrored \<Rightarrow> (Err (ResourceError ErrIO), self)
                | StoreTimeout \<Rightarrow> (Err (ResourceError ErrIO), self)
                | Stored \<Rightarrow>
                    let rsrc = rsrc\<lparr>r_lastPeriod := p, r_version := v, r_data := data\<rparr>
                    in (Ok (Key chunk), setResource self (EnsNode e name) rsrc)))"
        using d by (simp add: update_def Some uc)
      have res: "(r = Ok (Key chunk) \<or> r = Err (ResourceError ErrIO))
                 \<and> chunkStore self' = Some (chunk # store)"
      proof (cases "storeAck e chunk")
        case Stored
        with upd u show ?thesis by (auto simp: Let_def store_Put_def setResource_def)
      next
        case StoreErrored
        with upd u show ?thesis by (auto simp: Let_def store_Put_def)
      next
        case StoreTimeout
        with upd u show ?thesis by (auto simp: Let_def store_Put_def)
      qed
      from Some uc res show ?thesis by blast
    qed
  qed
qed

lemma Key_newUpdateChunk [simp]:
  "Key (newUpdateChunk key sg p v name data dl) = key"
  by (simp add: newUpdateChunk_def Let_def)

lemma update_published:
  assumes u: "update e self name data mh = (r, self')"
    and ch: "chunkStore self' \<noteq> chunkStore self"
  shows "\<exists>store chunk rsrc currentblock p v sg.
           chunkStore self = Some store \<and> chunkStore self' = Some (chunk # store)
         \<and> getResource self (EnsNode e name) = Some rsrc
         \<and> getBlock self name = Ok currentblock
         \<and> getNextPeriod (r_startBlock rsrc) currentblock (r_frequency rsrc) = Ok p
         \<and> v = (if r_lastPeriod rsrc = p then r_version rsrc else 0) + 1
         \<and> (sg = None \<longleftrightarrow> signer self = None)
         \<and> chunk = newUpdateChunk (resourceHash (hashFunc e) p v (r_nameHash rsrc)) sg p v
                      name data (if \<not> mh then int (length data) else 0)
         \<and> (r = Ok (Key chunk) \<or> r = Err (ResourceError ErrIO))"
proof (rule disjE [OF update_cases [OF u]])
  assume "self' = self \<and> (\<forall>key. r \<noteq> Ok key)"
  with ch show ?thesis by simp
next
  assume "\<exists>store chunk rsrc p v.
             chunkStore self = Some store
           \<and> update_chunk e self name data mh = Ok (chunk, rsrc, p, v)
           \<and> chunkStore self' = Some (chunk # store)
           \<and> (r = Ok (Key chunk) \<or> r = Err (ResourceError ErrIO))"
  then obtain store chunk rsrc p v
    where st: "chunkStore self = Some store"
    and uc: "update_chunk e self name data mh = Ok (chunk, rsrc, p, v)"
    and st': "chunkStore self' = Some (chunk # store)"
    and r: "r = Ok (Key chunk) \<or> r = Err (ResourceError ErrIO)"
    by (elim exE conjE)
  note ok = update_chunk_Ok [OF uc]
  from ok have g: "getResource self (EnsNode e name) = Some rsrc" by (elim conjE)
  from ok have "\<exists>currentblock. getBlock self name = Ok currentblock
              \<and> getNextPeriod (r_startBlock rsrc) currentblock (r_frequency rsrc) = Ok p"
    by (elim conjE)
  then obtain currentblock where blk: "getBlock self name = Ok currentblock"
    and np: "getNextPeriod (r_startBlock rsrc) currentblock (r_frequency rsrc) = Ok p"
    by (elim exE conjE)
  from ok have v: "v = (if r_lastPeriod rsrc = p then r_version rsrc else 0) + 1"
    by (elim conjE)
  from ok have "\<exists>sg. (sg = None \<longleftrightarrow> signer self = None)
              \<and> chunk = newUpdateChunk (resourceHash (hashFunc e) p v (r_nameHash rsrc)) sg p v
                          name data (if \<not> mh then int (length data) else 0)"
    by (elim conjE)
  then obtain sg where s: "sg = None \<longleftrightarrow> signer self = None"
    and c: "chunk = newUpdateChunk (resourceHash (hashFunc e) p v (r_nameHash rsrc)) sg p v
                      name data (if \<not> mh then int (length data) else 0)"
    by (elim exE conjE)
  show ?thesis
    apply (rule exI [of _ store], rule exI [of _ chunk], rule exI [of _ rsrc])
    apply (rule exI [of _ currentblock], rule exI [of _ p], rule exI [of _ v])
    apply (rule exI [of _ sg])
    apply (intro conjI)
            apply (rule st, rule st', rule g, rule blk, rule np, rule v, rule s, rule c, rule r)
    done
qed

lemmas ex_defs = env_ex_def rh_ex_def rsrc_ex_def resource_zero_def hash_ex_def
  rh_signing_def rh_unbound_def env_digest_def rh_owner_def owner_ex_def

lemmas update_defs = update_def update_chunk_def getResource_def isSynced_def getBlock_def
  hasUpdate_def store_Put_def setResource_def signatureLength_def chunkSize_def

text \<open>
  C1. \<open>resourceHash(period, version, nameHash)\<close> is
  \<open>H(period_LE32 || version_LE32 || nameHash)\<close>, for every period, version and name hash.
  Whenever \<open>update\<close> publishes a chunk (the store changes), the chunk is the update chunk
  for the next period (\<open>getNextPeriod\<close> of the entry's start block, the current block and
  the entry's frequency) and the new version (the entry's version plus one if the entry
  has an update in that period, else one), its key is this value for that period, that
  version and the entry's name hash, and a successful call returns this key; a call that
  publishes nothing does not succeed. The key is not derived from the chunk body: two
  calls on the same handler for the same name publish under the same key whatever their
  payloads and multihash flags are.
\<close>

theorem update_chunk_key:
  "resourceHash Hf period version nameHash = Hf (PutUint32 period @ PutUint32 version @ nameHash)
   \<and> (update e self name data mh = (r, self') \<and> chunkStore self' \<noteq> chunkStore self \<longrightarrow>
        (\<exists>store chunk rsrc currentblock p v sg.
            chunkStore self = Some store \<and> chunkStore self' = Some (chunk # store)
          \<and> getResource self (EnsNode e name) = Some rsrc
          \<and> getBlock self name = Ok currentblock
          \<and> getNextPeriod (r_startBlock rsrc) currentblock (r_frequency rsrc) = Ok p
          \<and> v = (if r_lastPeriod rsrc = p then r_version rsrc else 0) + 1
          \<and> chunk = newUpdateChunk (hashFunc e (PutUint32 p @ PutUint32 v @ r_nameHash rsrc))
                       sg p v name data (if \<not> mh then int (length data) else 0)
          \<and> Key chunk = hashFunc e (PutUint32 p @ PutUint32 v @ r_nameHash rsrc)
          \<and> (r = Ok (Key chunk) \<or> r = Err (ResourceError ErrIO))))
   \<and> (update e self name data mh = (r, self') \<and> chunkStore self' = chunkStore self \<longrightarrow>
        (\<forall>key. r \<noteq> Ok key))
   \<and> (update e self name data mh = (r, self') \<and> chunkStore self' \<noteq> chunkStore self
        \<and> update e self name data' mh' = (r', self'') \<and> chunkStore self'' \<noteq> chunkStore self \<longrightarrow>
        (\<exists>store chunk chunk'.
            chunkStore self' = Some (chunk # store) \<and> chunkStore self'' = Some (chunk' # store)
          \<and> Key chunk = Key chunk'))"
proof (intro conjI impI)
  show "resourceHash Hf period version nameHash = Hf (PutUint32 period @ PutUint32 version @ nameHash)"
    by (rule resourceHash_eq)
next
  assume a: "update e self name data mh = (r, self') \<and> chunkStore self' \<noteq> chunkStore self"
  then have u: "update e self name data mh = (r, self')"
    and ch: "chunkStore self' \<noteq> chunkStore self" by simp_all
  from update_published [OF u ch] obtain store chunk rsrc currentblock p v sg
    where st: "chunkStore self = Some store"
    and st': "chunkStore self' = Some (chunk # store)"
    and g: "getResource self (EnsNode e name) = Some rsrc"
    and blk: "getBlock self name = Ok currentblock"
    and np: "getNextPeriod (r_startBlock rsrc) currentblock (r_frequency rsrc) = Ok p"
    and v: "v = (if r_lastPeriod rsrc = p then r_version rsrc else 0) + 1"
    and s: "sg = None \<longleftrightarrow> signer self = None"
    and c: "chunk = newUpdateChunk (resourceHash (hashFunc e) p v (r_nameHash rsrc)) sg p v
                      name data (if \<not> mh then int (length data) else 0)"
    and r: "r = Ok (Key chunk) \<or> r = Err (ResourceError ErrIO)"
    by (elim exE conjE)
  have c': "chunk = newUpdateChunk (hashFunc e (PutUint32 p @ PutUint32 v @ r_nameHash rsrc))
                      sg p v name data (if \<not> mh then int (length data) else 0)"
    using c by (simp only: resourceHash_eq)
  have k: "Key chunk = hashFunc e (PutUint32 p @ PutUint32 v @ r_nameHash rsrc)"
    unfolding c' by (rule Key_newUpdateChunk)
  show "\<exists>store chunk rsrc currentblock p v sg.
            chunkStore self = Some store \<and> chunkStore self' = Some (chunk # store)
          \<and> getResource self (EnsNode e name) = Some rsrc
          \<and> getBlock self name = Ok currentblock
          \<and> getNextPeriod (r_startBlock rsrc) currentblock (r_frequency rsrc) = Ok p
          \<and> v = (if r_lastPeriod rsrc = p then r_version rsrc else 0) + 1
          \<and> chunk = newUpdateChunk (hashFunc e (PutUint32 p @ PutUint32 v @ r_nameHash rsrc))
                       sg p v name data (if \<not> mh then int (length data) else 0)
          \<and> Key chunk = hashFunc e (PutUint32 p @ PutUint32 v @ r_nameHash rsrc)
          \<and> (r = Ok (Key chunk) \<or> r = Err (ResourceError ErrIO))"
    apply (rule exI [of _ store], rule exI [of _ chunk], rule exI [of _ rsrc])
    apply (rule exI [of _ currentblock], rule exI [of _ p], rule exI [of _ v])
    apply (rule exI [of _ sg])
    apply (intro conjI)
            apply (rule st, rule st', rule g, rule blk, rule np, rule v, rule c', rule k, rule r)
    done
next
  assume a: "update e self name data mh = (r, self') \<and> chunkStore self' = chunkStore self"
  then have u: "update e self name data mh = (r, self')"
    and same: "chunkStore self' = chunkStore self" by simp_all
  show "\<forall>key. r \<noteq> Ok key"
  proof (rule disjE [OF update_cases [OF u]])
    assume "self' = self \<and> (\<forall>key. r \<noteq> Ok key)"
    then show ?thesis by simp
  next
    assume "\<exists>store chunk rsrc p v.
             chunkStore self = Some store
           \<and> update_chunk e self name data mh = Ok (chunk, rsrc, p, v)
           \<and> chunkStore self' = Some (chunk # store)
           \<and> (r = Ok (Key chunk) \<or> r = Err (ResourceError ErrIO))"
    then obtain store chunk where "chunkStore self = Some store"
      and "chunkStore self' = Some (chunk # store)"
      by (elim exE conjE)
    with same show ?thesis by simp
  qed
next
  assume a: "update e self name data mh = (r, self') \<and> chunkStore self' \<noteq> chunkStore self
        \<and> update e self name data' mh' = (r', self'') \<and> chunkStore self'' \<noteq> chunkStore self"
  then have u: "update e self name data mh = (r, self')"
    and ch: "chunkStore self' \<noteq> chunkStore self"
    and u': "update e self name data' mh' = (r', self'')"
    and ch': "chunkStore self'' \<noteq> chunkStore self" by simp_all
  from update_published [OF u ch] obtain store chunk rsrc currentblock p v sg
    where st: "chunkStore self = Some store"
    and st': "chunkStore self' = Some (chunk # store)"
    and g: "getResource self (EnsNode e name) = Some rsrc"
    and blk: "getBlock self name = Ok currentblock"
    and np: "getNextPeriod (r_startBlock rsrc) currentblock (r_frequency rsrc) = Ok p"
    and v: "v = (if r_lastPeriod rsrc = p then r_version rsrc else 0) + 1"
    and s: "sg = None \<longleftrightarrow> signer self = None"
    and c: "chunk = newUpdateChunk (resourceHash (hashFunc e) p v (r_nameHash rsrc)) sg p v
                      name data (if \<not> mh then int (length data) else 0)"
    and r: "r = Ok (Key chunk) \<or> r = Err (ResourceError ErrIO)"
    by (elim exE conjE)
  from update_published [OF u' ch'] obtain store2 chunk2 rsrc2 currentblock2 p2 v2 sg2
    where st2: "chunkStore self = Some store2"
    and st2': "chunkStore self'' = Some (chunk2 # store2)"
    and g2: "getResource self (EnsNode e name) = Some rsrc2"
    and blk2: "getBlock self name = Ok currentblock2"
    and np2: "getNextPeriod (r_startBlock rsrc2) currentblock2 (r_frequency rsrc2) = Ok p2"
    and v2: "v2 = (if r_lastPeriod rsrc2 = p2 then r_version rsrc2 else 0) + 1"
    and s2: "sg2 = None \<longleftrightarrow> signer self = None"
    and c2: "chunk2 = newUpdateChunk (resourceHash (hashFunc e) p2 v2 (r_nameHash rsrc2)) sg2 p2 v2
                      name data' (if \<not> mh' then int (length data') else 0)"
    and r2: "r' = Ok (Key chunk2) \<or> r' = Err (ResourceError ErrIO)"
    by (elim exE conjE)
  from st st2 have e0: "store2 = store" by simp
  from g g2 have e1: "rsrc2 = rsrc" by simp
  from blk blk2 have e2: "currentblock2 = currentblock" by simp
  from np np2 e1 e2 have e3: "p2 = p" by simp
  from v v2 e1 e3 have e4: "v2 = v" by simp
  have k: "Key chunk = Key chunk2"
    unfolding c c2 by (simp only: Key_newUpdateChunk e1 e3 e4)
  show "\<exists>store chunk chunk'.
            chunkStore self' = Some (chunk # store) \<and> chunkStore self'' = Some (chunk' # store)
          \<and> Key chunk = Key chunk'"
    apply (rule exI [of _ store], rule exI [of _ chunk], rule exI [of _ chunk2])
    apply (intro conjI)
      apply (rule st')
     apply (rule st2' [unfolded e0])
    apply (rule k)
    done
qed

theorem update_chunk_key_witness:
  "chunkStore (snd (update env_ex rh_ex [97] [104, 105] False)) \<noteq> chunkStore rh_ex
   \<and> chunkStore (snd (update env_ex rh_ex [97] [119] False)) \<noteq> chunkStore rh_ex
   \<and> (\<exists>store chunk chunk'.
         chunkStore (snd (update env_ex rh_ex [97] [104, 105] False)) = Some (chunk # store)
       \<and> chunkStore (snd (update env_ex rh_ex [97] [119] False)) = Some (chunk' # store)
       \<and> Key chunk = hash_ex (PutUint32 2 @ PutUint32 1 @ hash_ex [97])
       \<and> Key chunk' = Key chunk
       \<and> fst (update env_ex rh_ex [97] [104, 105] False) = Ok (Key chunk))"
proof -
  let ?u = "update env_ex rh_ex [97] [104, 105] False"
  let ?u' = "update env_ex rh_ex [97] [119] False"
  have ch: "chunkStore (snd ?u) \<noteq> chunkStore rh_ex"
    by (simp add: ex_defs update_defs getNextPeriod_def Let_def)
  have ch': "chunkStore (snd ?u') \<noteq> chunkStore rh_ex"
    by (simp add: ex_defs update_defs getNextPeriod_def Let_def)
  have ok: "fst ?u = Ok (resourceHash hash_ex 2 1 (hash_ex [97]))"
    by (simp add: ex_defs update_defs getNextPeriod_def Let_def)
  have pr: "?u = (fst ?u, snd ?u)" and pr': "?u' = (fst ?u', snd ?u')" by simp_all
  note t = update_chunk_key [where e = env_ex and self = rh_ex and name = "[97]"
      and data = "[104, 105]" and mh = False and r = "fst ?u" and self' = "snd ?u"
      and data' = "[119]" and mh' = False and r' = "fst ?u'" and self'' = "snd ?u'"]
  note ex = mp [OF t [THEN conjunct2, THEN conjunct1] conjI [OF pr ch]]
  note ind = mp [OF t [THEN conjunct2, THEN conjunct2, THEN conjunct2]
                  conjI [OF pr conjI [OF ch conjI [OF pr' ch']]]]
  from ex obtain store chunk rsrc currentblock p v sg
    where st: "chunkStore rh_ex = Some store"
      and st': "chunkStore (snd ?u) = Some (chunk # store)"
      and g: "getResource rh_ex (EnsNode env_ex [97]) = Some rsrc"
      and blk: "getBlock rh_ex [97] = Ok currentblock"
      and np: "getNextPeriod (r_startBlock rsrc) currentblock (r_frequency rsrc) = Ok p"
      and v: "v = (if r_lastPeriod rsrc = p then r_version rsrc else 0) + 1"
      and c: "chunk = newUpdateChunk (hashFunc env_ex (PutUint32 p @ PutUint32 v @ r_nameHash rsrc))
                        sg p v [97] [104, 105] (if \<not> False then int (length [104, 105 :: byte]) else 0)"
      and k: "Key chunk = hashFunc env_ex (PutUint32 p @ PutUint32 v @ r_nameHash rsrc)"
      and r: "fst ?u = Ok (Key chunk) \<or> fst ?u = Err (ResourceError ErrIO)"
    by (elim exE conjE)
  from g have rs: "rsrc = rsrc_ex"
    by (simp add: rh_ex_def env_ex_def getResource_def)
  from blk have cb: "currentblock = 4242"
    by (simp add: rh_ex_def getBlock_def)
  from np rs cb have p: "p = 2"
    by (simp add: rsrc_ex_def getNextPeriod_def)
  from v rs p have v1: "v = 1"
    by (simp add: rsrc_ex_def resource_zero_def)
  from k rs p v1 have k': "Key chunk = hash_ex (PutUint32 2 @ PutUint32 1 @ hash_ex [97])"
    by (simp add: env_ex_def rsrc_ex_def)
  from r ok have r': "fst ?u = Ok (Key chunk)" by auto
  from ind obtain store2 chunk2 chunk2'
    where a: "chunkStore (snd ?u) = Some (chunk2 # store2)"
      and b: "chunkStore (snd ?u') = Some (chunk2' # store2)"
      and kk: "Key chunk2 = Key chunk2'"
    by (elim exE conjE)
  from a st' have e1: "chunk2 = chunk" and e2: "store2 = store" by simp_all
  have b': "chunkStore (snd ?u') = Some (chunk2' # store)" using b e2 by simp
  have kk': "Key chunk2' = Key chunk" using kk e1 by simp
  show ?thesis
    apply (rule conjI [OF ch], rule conjI [OF ch'])
    apply (rule exI [of _ store], rule exI [of _ chunk], rule exI [of _ chunk2'])
    apply (intro conjI)
        apply (rule st', rule b', rule k', rule kk', rule r')
    done
qed

subsection \<open>The payload size limit\<close>

text \<open>
  C3 at its failing input. The handler has no signer and the name is one byte long, so
  the limit of the claim is \<open>4096 - (0 + 1 + 12) = 4083\<close>. A payload of 4084 bytes
  passes the size check of \<open>update\<close> and is published (the chunk has 4097 bytes): the code
  computes \<open>chunkSize - (signaturelength - len(name) - 12)\<close>, which is 4109 here.
\<close>

theorem update_datalimit_failing_input:
  "chunkSize - (0 + int (length [97 :: byte]) + 12) < int (length (replicate 4084 (0 :: byte)))
   \<and> fst (update env_ex rh_ex [97] (replicate 4084 0) False)
     = Ok (resourceHash hash_ex 2 1 (hash_ex [97]))"
  by (simp add: ex_defs update_defs getNextPeriod_def Let_def newUpdateChunk_def)

subsection \<open>NewResource before SetStore\<close>

text \<open>
  C10. With no store bound, a call of \<open>NewResource\<close> with a non-zero frequency and a safe
  name that passes the signer step and obtains the block height reaches
  \<open>self.chunkStore.Put(chunk)\<close> and panics there; \<open>update\<close> (on a non-empty payload) and
  \<open>lookup\<close> return \<open>ErrInit\<close> on the same handler.
\<close>

theorem NewResource_unbound_store:
  assumes st: "chunkStore self = None"
    and f: "frequency \<noteq> 0"
    and safe: "isSafeName e name"
    and sg: "signer self = None
             \<or> (\<exists>Sign sig addr. signer self = Some Sign \<and> Sign (EnsNode e name) = Inr sig
                  \<and> getAddressFromDataSig e (EnsNode e name) sig = Inr addr
                  \<and> checkAccess self name addr = (True, None))"
    and blk: "getBlock self name = Ok currentblock"
  shows "NewResource e self name frequency = Panic
       \<and> (data \<noteq> [] \<longrightarrow> update e self name data multihash = (Err (ResourceError ErrInit), self))
       \<and> lookup e self rsrc period version refresh maxLookup = Some (Err (ResourceError ErrInit))"
proof (intro conjI impI)
  have pre: "(case signer self of
                 None \<Rightarrow> Ok ()
               | Some Sign \<Rightarrow>
                   (case Sign (EnsNode e name) of
                      Inl err \<Rightarrow> Err (ResourceError ErrInvalidSignature)
                    | Inr signature \<Rightarrow>
                        (case getAddressFromDataSig e (EnsNode e name) signature of
                           Inl err \<Rightarrow> Err (ResourceError ErrInvalidSignature)
                         | Inr addr \<Rightarrow>
                             (case checkAccess self name addr of
                                (ok, Some err) \<Rightarrow> Err err
                              | (ok, None) \<Rightarrow>
                                  if \<not> ok then Err (ResourceError ErrUnauthorized)
                                  else Ok ())))) = Ok ()"
    using sg by (elim disjE exE conjE) simp_all
  show "NewResource e self name frequency = Panic"
    unfolding NewResource_def Let_def
    using f safe by (simp only: pre blk st if_False not_True_eq_False obind.simps option.case simp_thms)
next
  assume "data \<noteq> []"
  then show "update e self name data multihash = (Err (ResourceError ErrInit), self)"
    using st by (simp add: update_def)
next
  show "lookup e self rsrc period version refresh maxLookup = Some (Err (ResourceError ErrInit))"
    using st by (simp add: lookup_def)
qed

theorem NewResource_unbound_store_witness:
  "NewResource env_ex rh_unbound [97] 42 = Panic
   \<and> update env_ex rh_unbound [97] [104, 105] False = (Err (ResourceError ErrInit), rh_unbound)
   \<and> lookup env_ex rh_unbound rsrc_ex 2 0 False None = Some (Err (ResourceError ErrInit))"
  using NewResource_unbound_store [of rh_unbound 42 env_ex "[97]" 4242 "[104, 105]" False
      rsrc_ex 2 0 False None]
  by (simp add: ex_defs isSafeName_def getBlock_def)

subsection \<open>Next period\<close>

lemma getNextPeriod_before_start:
  "current < start \<Longrightarrow> getNextPeriod start current frequency = Err (ResourceError ErrInvalidValue)"
  by (simp add: getNextPeriod_def)

lemma ucast_succ_64_32: "(ucast (x + 1 :: 64 word) :: 32 word) = word_of_nat (unat x + 1)"
proof -
  have "(ucast (x + 1) :: 32 word) = word_of_nat (unat (x + 1))" by simp
  also have "\<dots> = word_of_nat (unat x + 1)"
    by (simp only: word_of_nat_eq_iff unat_word_ariths take_bit_eq_mod)
       (simp add: mod_mod_cancel)
  finally show ?thesis .
qed

lemma getNextPeriod_value:
  assumes "frequency \<noteq> 0" and "start \<le> current"
  shows "getNextPeriod start current frequency
         = Ok (word_of_nat (nextPeriod_spec (unat start) (unat current) (unat frequency)))"
proof -
  have diff: "unat (current - start) = unat current - unat start"
    using assms(2) by (simp add: unat_sub)
  have q: "unat ((current - start) div frequency) = (unat current - unat start) div unat frequency"
    by (simp add: unat_div diff)
  have r: "(ucast ((current - start) div frequency + 1) :: 32 word)
           = word_of_nat ((unat current - unat start) div unat frequency + 1)"
    by (simp only: ucast_succ_64_32 q)
  show ?thesis
    unfolding getNextPeriod_def nextPeriod_spec_def Let_def r
    using assms by (simp add: not_less)
qed

lemma getNextPeriod_Err_iff:
  "frequency \<noteq> 0 \<Longrightarrow> (\<exists>e. getNextPeriod start current frequency = Err e) \<longleftrightarrow> current < start"
  by (simp add: getNextPeriod_def Let_def)

lemma unat_word_of_nat_32: "n < 2 ^ 32 \<Longrightarrow> unat (word_of_nat n :: 32 word) = n"
  by (simp add: unat_of_nat)

lemma unat_add_mult_64:
  assumes h: "unat s + k * unat f < 2 ^ 64"
  shows "unat ((s :: 64 word) + word_of_nat k * f) = unat s + k * unat f"
proof -
  have kf: "unat (word_of_nat k * f :: 64 word) = k * unat f"
  proof (cases "f = 0")
    case True
    then show ?thesis by simp
  next
    case False
    then have "unat f \<ge> 1" by (simp add: unat_gt_0 Suc_leI)
    then have "k \<le> k * unat f" by simp
    then have k: "k < 2 ^ 64" using h by linarith
    have "unat (word_of_nat k :: 64 word) = k" using k by (simp add: unat_of_nat)
    moreover have "k * unat f < 2 ^ 64" using h by linarith
    ultimately show ?thesis by (simp add: unat_word_ariths)
  qed
  show ?thesis using h kf by (simp add: unat_word_ariths)
qed

lemma getNextPeriod_multiple:
  assumes f: "frequency \<noteq> 0" and h: "unat start + k * unat frequency < 2 ^ 64"
  shows "getNextPeriod start (start + word_of_nat k * frequency) frequency = Ok (word_of_nat (k + 1))"
proof -
  let ?cur = "start + word_of_nat k * frequency"
  have u: "unat ?cur = unat start + k * unat frequency"
    by (rule unat_add_mult_64 [OF h])
  then have le: "start \<le> ?cur" by (simp add: word_le_nat_alt)
  have pos: "0 < unat frequency" using f by (simp add: unat_gt_0)
  have "nextPeriod_spec (unat start) (unat ?cur) (unat frequency) = k + 1"
    using pos by (simp add: nextPeriod_spec_def u)
  then show ?thesis using getNextPeriod_value [OF f le] by simp
qed

text \<open>
  C6, as the code has it. For a non-zero frequency: when \<open>current \<ge> start\<close> the result is
  \<open>\<lfloor>(current - start) / frequency\<rfloor> + 1\<close> reduced to 32 bits, so it is exactly that number
  whenever the number is below \<open>2^32\<close>; \<open>getNextPeriod(start, start + k*frequency,
  frequency)\<close> is \<open>k + 1\<close> whenever \<open>start + k*frequency\<close> fits in 64 bits and \<open>k + 1\<close> in
  32 bits; and the call fails, with \<open>ErrInvalidValue\<close>, exactly when \<open>current < start\<close>.
\<close>

theorem getNextPeriod_amended:
  assumes "frequency \<noteq> 0"
  shows "(start \<le> current \<longrightarrow>
            getNextPeriod start current frequency
            = Ok (word_of_nat (nextPeriod_spec (unat start) (unat current) (unat frequency))))
       \<and> (start \<le> current
            \<and> nextPeriod_spec (unat start) (unat current) (unat frequency) < 2 ^ 32 \<longrightarrow>
            (\<exists>p. getNextPeriod start current frequency = Ok p
               \<and> unat p = nextPeriod_spec (unat start) (unat current) (unat frequency)))
       \<and> (unat start + k * unat frequency < 2 ^ 64 \<and> k + 1 < 2 ^ 32 \<longrightarrow>
            (\<exists>p. getNextPeriod start (start + word_of_nat k * frequency) frequency = Ok p
               \<and> unat p = k + 1))
       \<and> (current < start \<longrightarrow>
            getNextPeriod start current frequency = Err (ResourceError ErrInvalidValue))
       \<and> ((\<exists>e. getNextPeriod start current frequency = Err e) \<longleftrightarrow> current < start)"
proof (intro conjI impI)
  assume "start \<le> current"
  then show "getNextPeriod start current frequency
      = Ok (word_of_nat (nextPeriod_spec (unat start) (unat current) (unat frequency)))"
    by (rule getNextPeriod_value [OF assms])
next
  assume h: "start \<le> current
    \<and> nextPeriod_spec (unat start) (unat current) (unat frequency) < 2 ^ 32"
  then show "\<exists>p. getNextPeriod start current frequency = Ok p
      \<and> unat p = nextPeriod_spec (unat start) (unat current) (unat frequency)"
    using getNextPeriod_value [OF assms, of start current] unat_word_of_nat_32 by blast
next
  assume h: "unat start + k * unat frequency < 2 ^ 64 \<and> k + 1 < 2 ^ 32"
  then show "\<exists>p. getNextPeriod start (start + word_of_nat k * frequency) frequency = Ok p
      \<and> unat p = k + 1"
    using getNextPeriod_multiple [OF assms, of start k] unat_word_of_nat_32 [of "k + 1"] by blast
next
  assume "current < start"
  then show "getNextPeriod start current frequency = Err (ResourceError ErrInvalidValue)"
    by (rule getNextPeriod_before_start)
next
  show "(\<exists>e. getNextPeriod start current frequency = Err e) \<longleftrightarrow> current < start"
    by (rule getNextPeriod_Err_iff [OF assms])
qed

theorem getNextPeriod_amended_witness:
  "(42 :: 64 word) \<noteq> 0
   \<and> getNextPeriod 4200 4242 42 = Ok 2
   \<and> getNextPeriod 4200 (4200 + word_of_nat 3 * 42) 42 = Ok 4
   \<and> getNextPeriod 4200 4199 42 = Err (ResourceError ErrInvalidValue)"
proof -
  have f: "(42 :: 64 word) \<noteq> 0" by simp
  have sp: "nextPeriod_spec (unat (4200 :: 64 word)) (unat (4242 :: 64 word)) (unat (42 :: 64 word)) = 2"
    by (simp add: nextPeriod_spec_def)
  have le: "(4200 :: 64 word) \<le> 4242" and lt: "(4199 :: 64 word) < 4200" by simp_all
  note t = getNextPeriod_amended [OF f, of 4200 4242 3]
  note u = getNextPeriod_amended [OF f, of 4200 4199 3]
  have a: "getNextPeriod 4200 4242 42 = Ok 2" using t le sp by simp
  have b: "getNextPeriod 4200 (4200 + word_of_nat 3 * 42) 42 = Ok 4"
  proof -
    from t obtain p :: "32 word"
      where p: "getNextPeriod 4200 (4200 + word_of_nat 3 * 42) 42 = Ok p" "unat p = 3 + 1"
      by auto
    from p(2) have "p = 4" by (simp add: word_eq_iff_unsigned [where ?'a = nat])
    with p(1) show ?thesis by simp
  qed
  have c: "getNextPeriod 4200 4199 42 = Err (ResourceError ErrInvalidValue)"
    using u lt by blast
  show ?thesis using f a b c by blast
qed

text \<open>
  C6 as stated fails where the quotient does not fit the \<open>uint32\<close> result: for start 0,
  current \<open>2^32\<close> and frequency 1 the formula gives \<open>2^32 + 1\<close>, the code returns 1.
\<close>

theorem getNextPeriod_counterexample:
  "getNextPeriod 0 4294967296 1 = Ok 1
   \<and> nextPeriod_spec (unat (0 :: 64 word)) (unat (4294967296 :: 64 word)) (unat (1 :: 64 word))
     = 4294967297"
  by (simp add: getNextPeriod_def nextPeriod_spec_def)

subsection \<open>Connections are known addresses\<close>

lemma pot_find_None: "pot_find t key = None \<longleftrightarrow> key \<notin> pot_keys t"
  by (auto simp: pot_find_def pot_keys_def find_None_iff)

lemma pot_find_Some: "pot_find t key = Some v \<Longrightarrow> entry_Address v = key \<and> key \<in> pot_keys t"
  by (auto simp: pot_find_def pot_keys_def find_Some_iff)

lemma keys_filter: "pot_keys (filter (\<lambda>e. entry_Address e \<noteq> key) t) = pot_keys t - {key}"
  by (auto simp: pot_keys_def)

lemma ok_filter: "pot_ok t \<Longrightarrow> pot_ok (filter P t)"
  by (simp add: pot_ok_def distinct_map_filter)

lemma keys_Swap_Some:
  "f (pot_find t key) = Some v \<Longrightarrow>
   pot_keys (pot_Swap t key f) = insert (entry_Address v) (pot_keys t - {key})"
  using keys_filter [of key t] by (simp add: pot_Swap_def pot_keys_def)

lemma keys_Swap_None:
  "f (pot_find t key) = None \<Longrightarrow> pot_keys (pot_Swap t key f) = pot_keys t - {key}"
  using keys_filter [of key t] by (simp add: pot_Swap_def)

lemma ok_Swap_Some:
  assumes "pot_ok t" and "f (pot_find t key) = Some v" and "entry_Address v = key"
  shows "pot_ok (pot_Swap t key f)"
proof -
  have "key \<notin> pot_keys (filter (\<lambda>e. entry_Address e \<noteq> key) t)"
    by (simp add: keys_filter)
  moreover have "pot_ok (filter (\<lambda>e. entry_Address e \<noteq> key) t)"
    using assms(1) by (rule ok_filter)
  ultimately show ?thesis
    using assms(2,3) by (simp add: pot_Swap_def pot_ok_def pot_keys_def)
qed

lemma ok_Swap_None:
  "pot_ok t \<Longrightarrow> f (pot_find t key) = None \<Longrightarrow> pot_ok (pot_Swap t key f)"
  by (simp add: pot_Swap_def ok_filter)

lemma keys_Union: "pot_keys (pot_Union t0 t1) = pot_keys t0 \<union> pot_keys t1"
  by (auto simp: pot_Union_def pot_keys_def)

lemma ok_Union:
  assumes "pot_ok t0" and "pot_ok t1"
  shows "pot_ok (pot_Union t0 t1)"
proof -
  let ?P = "\<lambda>e. entry_Address e \<notin> set (map entry_Address t0)"
  have 0: "distinct (map entry_Address t0)" using assms(1) by (simp only: pot_ok_def)
  have "distinct (map entry_Address t1)" using assms(2) by (simp only: pot_ok_def)
  then have 1: "distinct (map entry_Address (filter ?P t1))" by (rule distinct_map_filter)
  have 2: "set (map entry_Address t0) \<inter> set (map entry_Address (filter ?P t1)) = {}"
    by (force simp: image_iff)
  from 0 1 2 have "distinct (map entry_Address t0 @ map entry_Address (filter ?P t1))"
    by (simp only: distinct_append simp_thms)
  then show ?thesis by (simp only: pot_ok_def pot_Union_def map_append)
qed

lemma ok_Add: "pot_ok t \<Longrightarrow> pot_ok (pot_Add t v)"
  unfolding pot_Add_def by (rule ok_Swap_Some) simp_all

lemma Register_collect_ok:
  "pot_ok np \<Longrightarrow> Register_collect b now np peers = Inr np' \<Longrightarrow> pot_ok np'"
proof (induction peers arbitrary: np)
  case Nil
  then show ?case by simp
next
  case (Cons p peers)
  from Cons.prems(2) have ne: "Address p \<noteq> b"
    and rec: "Register_collect b now (pot_Add np (newEntry now p)) peers = Inr np'"
    by (simp_all split: if_splits)
  from Cons.prems(1) have "pot_ok (pot_Add np (newEntry now p))" by (rule ok_Add)
  then show ?case using rec by (rule Cons.IH)
qed

lemma table_ok_init: "table_ok (NewKademlia addr ps)"
  by (simp add: table_ok_def NewKademlia_def NewPot_def pot_ok_def pot_keys_def)

lemma table_ok_Register:
  assumes "table_ok k" and "Register k now peers = (err, k')"
  shows "table_ok k'"
proof (cases "Register_collect (base k) now NewPot peers")
  case (Inl e)
  with assms show ?thesis by (simp add: Register_def)
next
  case (Inr np)
  have "pot_ok NewPot" by (simp add: NewPot_def pot_ok_def)
  then have np: "pot_ok np" using Inr by (rule Register_collect_ok)
  from assms(2) Inr have k': "k' = k\<lparr>addrs := pot_Union (addrs k) np\<rparr>"
    by (simp add: Register_def)
  show ?thesis
    using assms(1) np by (auto simp: k' table_ok_def ok_Union keys_Union)
qed

lemma table_ok_On:
  assumes ok: "table_ok k"
  shows "table_ok (On k now p)"
proof (cases "pot_find (conns k) (Address p)")
  case None
  let ?e = "newEntry now p"
  have a: "entry_Address ?e = Address p" by (simp add: entry_Address_def newEntry_def)
  have on: "On k now p = k\<lparr>conns := pot_Swap (conns k) (Address p)
                                   (\<lambda>v. case v of None \<Rightarrow> Some ?e | Some v \<Rightarrow> Some v),
                        addrs := pot_Swap (addrs k) (Address p) (\<lambda>v. Some ?e)\<rparr>"
    using None by (simp add: On_def Let_def)
  have c: "pot_keys (conns (On k now p)) = insert (Address p) (pot_keys (conns k) - {Address p})"
    unfolding on using None a by (simp add: keys_Swap_Some)
  have d: "pot_keys (addrs (On k now p)) = insert (Address p) (pot_keys (addrs k) - {Address p})"
    unfolding on using a by (simp add: keys_Swap_Some)
  have oc: "pot_ok (conns (On k now p))"
    unfolding on using ok None a by (simp add: table_ok_def ok_Swap_Some)
  have oa: "pot_ok (addrs (On k now p))"
    unfolding on using ok a by (simp add: table_ok_def ok_Swap_Some)
  from ok c d oc oa show ?thesis by (auto simp: table_ok_def)
next
  case (Some v)
  then have v: "entry_Address v = Address p" and mem: "Address p \<in> pot_keys (conns k)"
    using pot_find_Some by blast+
  have on: "On k now p = k\<lparr>conns := pot_Swap (conns k) (Address p)
                (\<lambda>v. case v of None \<Rightarrow> Some (newEntry now p) | Some v \<Rightarrow> Some v)\<rparr>"
    using Some by (simp add: On_def Let_def)
  have c: "pot_keys (conns (On k now p)) = pot_keys (conns k)"
    unfolding on using Some v mem by (auto simp: keys_Swap_Some)
  have oc: "pot_ok (conns (On k now p))"
    unfolding on using ok Some v by (simp add: table_ok_def ok_Swap_Some)
  have a: "addrs (On k now p) = addrs k" unfolding on by simp
  from ok c oc a show ?thesis by (simp add: table_ok_def)
qed

lemma table_ok_Off:
  assumes ok: "table_ok k" and off: "Off k now p = Ok k'"
  shows "table_ok k'"
proof (cases "pot_find (addrs k) (Address p)")
  case None
  with off show ?thesis by (simp add: Off_def)
next
  case (Some v)
  then have mem: "Address p \<in> pot_keys (addrs k)" using pot_find_Some by blast
  let ?e = "newEntry now (peer_Off p)"
  have a: "entry_Address ?e = Address p"
    by (simp add: entry_Address_def newEntry_def peer_Off_def)
  from off Some have k': "k' = k\<lparr>addrs := pot_Swap (addrs k) (Address p) (\<lambda>v. Some ?e),
                                  conns := pot_Swap (conns k) (Address p) (\<lambda>v. None)\<rparr>"
    by (simp add: Off_def Let_def)
  have d: "pot_keys (addrs k') = pot_keys (addrs k)"
    unfolding k' using a mem by (auto simp: keys_Swap_Some)
  have c: "pot_keys (conns k') = pot_keys (conns k) - {Address p}"
    unfolding k' by (simp add: keys_Swap_None)
  have oa: "pot_ok (addrs k')"
    unfolding k' using ok a by (simp add: table_ok_def ok_Swap_Some)
  have oc: "pot_ok (conns k')"
    unfolding k' using ok by (simp add: table_ok_def ok_Swap_None)
  from ok c d oa oc show ?thesis by (auto simp: table_ok_def)
qed

lemma reachable_table_ok: "reachable k \<Longrightarrow> table_ok k"
proof (induction rule: reachable.induct)
  case (init addr ps)
  show ?case by (rule table_ok_init)
next
  case (register k now peers err k')
  then show ?case using table_ok_Register by blast
next
  case (on k now p)
  then show ?case using table_ok_On by blast
next
  case (off k now p k')
  then show ?case using table_ok_Off by blast
qed

text \<open>
  C8. In every table that finished calls of \<open>Register\<close>, \<open>On\<close> and \<open>Off\<close> lead to from
  a new table, every peer in the \<open>conns\<close> trie has an entry in the \<open>addrs\<close> trie, and
  \<open>conns.Size() \<le> addrs.Size()\<close>.
\<close>

theorem conns_subset_addrs:
  assumes "reachable k"
  shows "set (map entry_Address (conns k)) \<subseteq> set (map entry_Address (addrs k))
       \<and> pot_Size (conns k) \<le> pot_Size (addrs k)"
proof -
  from assms have ok: "table_ok k" by (rule reachable_table_ok)
  then have sub: "set (map entry_Address (conns k)) \<subseteq> set (map entry_Address (addrs k))"
    by (simp add: table_ok_def pot_keys_def)
  from ok have dc: "distinct (map entry_Address (conns k))"
    and da: "distinct (map entry_Address (addrs k))"
    by (simp_all add: table_ok_def pot_ok_def)
  have "card (set (map entry_Address (conns k))) = length (map entry_Address (conns k))"
    using dc by (rule distinct_card)
  then have lc: "length (conns k) = card (set (map entry_Address (conns k)))"
    by (simp only: length_map)
  have "card (set (map entry_Address (addrs k))) = length (map entry_Address (addrs k))"
    using da by (rule distinct_card)
  then have la: "card (set (map entry_Address (addrs k))) = length (addrs k)"
    by (simp only: length_map)
  have "card (set (map entry_Address (conns k))) \<le> card (set (map entry_Address (addrs k)))"
    using sub by (rule card_mono [OF finite_set])
  with lc la have "length (conns k) \<le> length (addrs k)" by simp
  with sub show ?thesis by (simp only: pot_Size_def simp_thms)
qed

theorem conns_subset_addrs_witness:
  "reachable kad_walk \<and> pot_Size (conns kad_walk) = 1 \<and> pot_Size (addrs kad_walk) = 3
   \<and> set (map entry_Address (conns kad_walk)) \<subseteq> set (map entry_Address (addrs kad_walk))
   \<and> pot_Size (conns kad_walk) \<le> pot_Size (addrs kad_walk)"
proof -
  define k0 where "k0 = NewKademlia base_ex None"
  define k1 where "k1 = snd (Register k0 0 [OverlayAddr (0x01 # replicate 31 0)])"
  define k2 where "k2 = On (On k1 1 (peer_po 0x04)) 1 (peer_po 0x10)"
  have "reachable k0" unfolding k0_def by (rule reachable.init)
  moreover have "Register k0 0 [OverlayAddr (0x01 # replicate 31 0)]
      = (fst (Register k0 0 [OverlayAddr (0x01 # replicate 31 0)]), k1)"
    by (simp add: k1_def)
  ultimately have "reachable k1" by (rule reachable.register)
  then have r2: "reachable k2" unfolding k2_def by (intro reachable.on)
  have w: "kad_walk = (case Off k2 2 (peer_po 0x04) of Ok k' \<Rightarrow> k' | _ \<Rightarrow> k2)"
    unfolding kad_walk_def Let_def k2_def k1_def k0_def by (rule refl)
  have r: "reachable kad_walk"
  proof (cases "Off k2 2 (peer_po 0x04)")
    case (Ok k')
    have "reachable k'" using r2 Ok by (rule reachable.off)
    moreover have "kad_walk = k'" unfolding w Ok by (simp only: outcome.case)
    ultimately show ?thesis by (simp only:)
  next
    case Panic
    have "kad_walk = k2" unfolding w Panic by (simp only: outcome.case)
    with r2 show ?thesis by (simp only:)
  next
    case (Err e)
    have "kad_walk = k2" unfolding w Err by (simp only: outcome.case)
    with r2 show ?thesis by (simp only:)
  qed
  have s1: "pot_Size (conns kad_walk) = 1" by code_simp
  have s2: "pot_Size (addrs kad_walk) = 3" by code_simp
  note t = conns_subset_addrs [OF r]
  show ?thesis by (intro conjI r s1 s2 t [THEN conjunct1] t [THEN conjunct2])
qed

subsection \<open>Depth\<close>

text \<open>
  With at least \<open>MinProxBinSize\<close> connections the visitor stops at the
  \<open>MinProxBinSize\<close>-th nearest one, and \<open>depth\<close> is its proximity order.
\<close>

lemma each_depth_visitor:
  "0 \<le> s \<Longrightarrow> s < m \<Longrightarrow> m - s \<le> int (length xs) \<Longrightarrow>
   each (depth_visitor m) b (s, d) xs
     = (m, int (proximity (entry_Address (xs ! (nat (m - s) - 1))) b))"
proof (induction xs arbitrary: s d)
  case Nil
  then show ?case by simp
next
  case (Cons x xs)
  show ?case
  proof (cases "s + 1 < m")
    case True
    have step: "each (depth_visitor m) b (s, d) (x # xs)
        = each (depth_visitor m) b (s + 1, int (proximity (entry_Address x) b)) xs"
      using True by (simp add: depth_visitor_def Let_def)
    have "each (depth_visitor m) b (s + 1, int (proximity (entry_Address x) b)) xs
        = (m, int (proximity (entry_Address (xs ! (nat (m - (s + 1)) - 1))) b))"
      using Cons.prems True by (intro Cons.IH) simp_all
    moreover have "nat (m - s) - 1 = Suc (nat (m - (s + 1)) - 1)"
      using True Cons.prems(1) by simp
    ultimately show ?thesis using step by simp
  next
    case False
    with Cons.prems have m: "m = s + 1" by simp
    show ?thesis by (simp add: m depth_visitor_def Let_def)
  qed
qed

lemma length_neighbours: "length (neighbours t b) = length t"
  by (simp add: neighbours_def)

lemma depth_nth:
  assumes "1 \<le> MinProxBinSize (params k)"
    and "MinProxBinSize (params k) \<le> int (pot_Size (conns k))"
  shows "depth k = int (proximity (entry_Address
           (neighbours (conns k) (base k) ! (nat (MinProxBinSize (params k)) - 1))) (base k))"
proof -
  have "each (depth_visitor (MinProxBinSize (params k))) (base k) (0, 0) (neighbours (conns k) (base k))
      = (MinProxBinSize (params k), int (proximity (entry_Address
           (neighbours (conns k) (base k) ! (nat (MinProxBinSize (params k) - 0) - 1))) (base k)))"
    using assms by (intro each_depth_visitor) (simp_all add: length_neighbours pot_Size_def)
  then show ?thesis using assms by (simp add: depth_def EachNeighbour_def)
qed

lemma sorted_count_ge:
  assumes "sorted (map f zs)" and "i < length zs"
  shows "length zs - i \<le> length (filter (\<lambda>e. f (zs ! i) \<le> f e) zs)"
proof -
  have "\<forall>e \<in> set (drop i zs). f (zs ! i) \<le> f e"
  proof
    fix e assume "e \<in> set (drop i zs)"
    then obtain j where j: "j < length zs - i" and e: "e = zs ! (i + j)"
      by (auto simp: in_set_conv_nth)
    have "map f zs ! i \<le> map f zs ! (i + j)"
      using assms(1) j by (intro sorted_nth_mono) simp_all
    then show "f (zs ! i) \<le> f e" using assms(2) j e by simp
  qed
  then have "filter (\<lambda>e. f (zs ! i) \<le> f e) (drop i zs) = drop i zs"
    by (simp only: filter_id_conv)
  then have "length (filter (\<lambda>e. f (zs ! i) \<le> f e) (drop i zs)) = length zs - i"
    by simp
  moreover have "length (filter (\<lambda>e. f (zs ! i) \<le> f e) zs)
      = length (filter (\<lambda>e. f (zs ! i) \<le> f e) (take i zs))
        + length (filter (\<lambda>e. f (zs ! i) \<le> f e) (drop i zs))"
    by (simp only: length_append [symmetric] filter_append [symmetric] append_take_drop_id)
  ultimately show ?thesis by simp
qed

lemma sorted_count_gt:
  assumes "sorted (map f zs)" and "i < length zs" and "f (zs ! i) < (d::nat)"
  shows "length (filter (\<lambda>e. d \<le> f e) zs) < length zs - i"
proof -
  have "\<forall>e \<in> set (take (Suc i) zs). \<not> d \<le> f e"
  proof
    fix e assume "e \<in> set (take (Suc i) zs)"
    then obtain j where j: "j < Suc i" and e: "e = zs ! j"
      using assms(2) by (auto simp: in_set_conv_nth)
    have "map f zs ! j \<le> map f zs ! i"
      using assms(1,2) j by (intro sorted_nth_mono) simp_all
    then show "\<not> d \<le> f e" using assms(2,3) j e by simp
  qed
  then have "filter (\<lambda>e. d \<le> f e) (take (Suc i) zs) = []"
    by (simp only: filter_empty_conv) 
  then have "filter (\<lambda>e. d \<le> f e) (take (Suc i) zs @ drop (Suc i) zs)
      = filter (\<lambda>e. d \<le> f e) (drop (Suc i) zs)"
    by (simp only: filter_append append_Nil)
  then have "length (filter (\<lambda>e. d \<le> f e) zs) = length (filter (\<lambda>e. d \<le> f e) (drop (Suc i) zs))"
    by (simp only: append_take_drop_id)
  also have "\<dots> \<le> length (drop (Suc i) zs)" by (rule length_filter_le)
  also have "\<dots> < length zs - i" using assms(2) by simp
  finally show ?thesis .
qed

lemma conns_at_least_sorted:
  "conns_at_least k d
     = length (filter (\<lambda>e. d \<le> proximity (entry_Address e) (base k))
                (sort_key (\<lambda>e. proximity (entry_Address e) (base k)) (conns k)))"
  by (simp add: conns_at_least_def filter_sort)

lemma kad_5_3_depth: "depth kad_5_3 = 3 \<and> MinProxBinSize (params kad_5_3) = 2 \<and> pot_Size (conns kad_5_3) = 2"
  by code_simp

text \<open>
  C7, as the code has it. With fewer than \<open>MinProxBinSize\<close> live connections \<open>depth()\<close> is
  0. With \<open>1 \<le> MinProxBinSize\<close> and at least that many live connections, \<open>depth()\<close> is the
  largest proximity order \<open>d\<close> such that at least \<open>MinProxBinSize\<close> live connections are at
  proximity order \<open>d\<close> or more: that many are at \<open>depth()\<close> or more, and fewer at every
  larger order.
\<close>

theorem depth_amended:
  "(int (pot_Size (conns k)) < MinProxBinSize (params k) \<longrightarrow> depth k = 0)
   \<and> (1 \<le> MinProxBinSize (params k) \<and> MinProxBinSize (params k) \<le> int (pot_Size (conns k)) \<longrightarrow>
        0 \<le> depth k
      \<and> MinProxBinSize (params k) \<le> int (conns_at_least k (nat (depth k)))
      \<and> (\<forall>d. nat (depth k) < d \<longrightarrow> int (conns_at_least k d) < MinProxBinSize (params k)))"
proof (intro conjI impI)
  assume "int (pot_Size (conns k)) < MinProxBinSize (params k)"
  then show "depth k = 0" by (simp add: depth_def)
next
  assume a: "1 \<le> MinProxBinSize (params k) \<and> MinProxBinSize (params k) \<le> int (pot_Size (conns k))"
  define f where "f = (\<lambda>e. proximity (entry_Address e) (base k))"
  define zs where "zs = sort_key f (conns k)"
  define n where "n = nat (MinProxBinSize (params k))"
  define i where "i = length zs - n"
  have len: "length zs = length (conns k)" by (simp add: zs_def)
  from a have a1: "1 \<le> MinProxBinSize (params k)"
    and a2: "MinProxBinSize (params k) \<le> int (length (conns k))"
    by (simp_all add: pot_Size_def)
  have n: "1 \<le> n" "n \<le> length zs" "int n = MinProxBinSize (params k)"
    unfolding n_def len using a1 a2 by linarith+
  have i: "i < length zs" "length zs - i = n" using n by (simp_all add: i_def)
  have srt: "sorted (map f zs)" by (simp add: zs_def)
  have "neighbours (conns k) (base k) ! (n - 1) = zs ! i"
    using n by (simp add: neighbours_def zs_def [symmetric] f_def [symmetric] rev_nth i_def)
  then have dep: "depth k = int (f (zs ! i))"
    using depth_nth [of k] a by (simp add: n_def f_def)
  have cnt: "conns_at_least k d = length (filter (\<lambda>e. d \<le> f e) zs)" for d
    by (simp add: conns_at_least_sorted zs_def f_def)
  show "0 \<le> depth k" by (simp add: dep)
  show "MinProxBinSize (params k) \<le> int (conns_at_least k (nat (depth k)))"
    using sorted_count_ge [OF srt i(1)] i(2) n(3) by (simp add: dep cnt)
  show "\<forall>d. nat (depth k) < d \<longrightarrow> int (conns_at_least k d) < MinProxBinSize (params k)"
  proof (intro allI impI)
    fix d assume "nat (depth k) < d"
    then have "f (zs ! i) < d" by (simp add: dep)
    from sorted_count_gt [OF srt i(1) this] i(2) n(3)
    show "int (conns_at_least k d) < MinProxBinSize (params k)" by (simp add: cnt)
  qed
qed

theorem depth_amended_witness:
  "depth (NewKademlia base_ex None) = 0
   \<and> depth kad_5_3 = 3 \<and> 2 \<le> int (conns_at_least kad_5_3 3) \<and> int (conns_at_least kad_5_3 4) < 2"
proof -
  have 0: "int (pot_Size (conns (NewKademlia base_ex None))) < MinProxBinSize (params (NewKademlia base_ex None))"
    by code_simp
  have 1: "depth kad_5_3 = 3" "MinProxBinSize (params kad_5_3) = 2" "pot_Size (conns kad_5_3) = 2"
    using kad_5_3_depth by simp_all
  show ?thesis
    using depth_amended [of "NewKademlia base_ex None"] depth_amended [of kad_5_3] 0 1
    by simp
qed

text \<open>
  C7 as stated fails on both counts. With \<open>MinProxBinSize = 2\<close> and two connections, at
  proximity orders 5 and 3, \<open>depth()\<close> is 3, while the smallest order with two connections
  at or above it is 0; with connections at orders 5 and 0, \<open>depth()\<close> is 0 although the
  table has \<open>MinProxBinSize\<close> connections.
\<close>

theorem depth_counterexample:
  "MinProxBinSize (params kad_5_3) = 2 \<and> depth kad_5_3 = 3 \<and> conns_at_least kad_5_3 0 = 2
   \<and> MinProxBinSize (params kad_5_0) = 2 \<and> depth kad_5_0 = 0 \<and> pot_Size (conns kad_5_0) = 2"
  by code_simp

end
